theory Spec2Isabelle
  imports Complex_Main "HOL-Library.Sublist" "HOL-Library.Log_Nat"
begin

section \<open>Strings\<close>

text \<open>
  JavaScript strings are modelled as \<open>string\<close> (lists of 8-bit characters, read as the
  UTF-8 bytes of the text). The resolver only inspects ASCII characters; the bytes of a
  non-ASCII character are all above 127, so they are neither word characters nor selector
  punctuation, as in the source. \<open>toLowerCase\<close> folds the ASCII letters only.
\<close>

definition startsWith :: "string \<Rightarrow> string \<Rightarrow> bool" where
  "startsWith s p = prefix p s"

definition str_includes :: "string \<Rightarrow> string \<Rightarrow> bool" where
  "str_includes s p = sublist p s"

definition lower_char :: "char \<Rightarrow> char" where
  "lower_char c =
     (let n = (of_char c :: nat) in if 65 \<le> n \<and> n \<le> 90 then char_of (n + 32) else c)"

definition toLowerCase :: "string \<Rightarrow> string" where
  "toLowerCase s = map lower_char s"

definition is_word_char :: "char \<Rightarrow> bool" where
  \<comment> \<open>the regular-expression class \<open>\w\<close>: letters, digits and the underscore\<close>
  "is_word_char c =
     (let n = (of_char c :: nat) in
        (48 \<le> n \<and> n \<le> 57) \<or> (65 \<le> n \<and> n \<le> 90) \<or> n = 95 \<or> (97 \<le> n \<and> n \<le> 122))"

definition is_identifier :: "string \<Rightarrow> bool" where
  \<comment> \<open>\<open>/^[\w-]+$/.test(target)\<close>: one or more word characters or hyphens, nothing else\<close>
  "is_identifier s = (s \<noteq> [] \<and> list_all (\<lambda>c. is_word_char c \<or> c = CHR ''-'') s)"

definition dquote :: string where
  "dquote = [CHR 0x22]"

fun show_nat :: "nat \<Rightarrow> string" where
  "show_nat n =
     (if n < 10 then [''0123456789'' ! n]
      else show_nat (n div 10) @ [''0123456789'' ! (n mod 10)])"

declare show_nat.simps [simp del]

definition show_int :: "int \<Rightarrow> string" where
  "show_int i = (if i < 0 then ''-'' @ show_nat (nat (- i)) else show_nat (nat i))"

definition is_space :: "char \<Rightarrow> bool" where
  "is_space c = ((of_char c :: nat) \<in> {9, 10, 11, 12, 13, 32})"

definition trim :: "string \<Rightarrow> string" where
  "trim s = rev (dropWhile is_space (rev (dropWhile is_space s)))"

fun join_with :: "string \<Rightarrow> string list \<Rightarrow> string" where
  "join_with sep [] = []"
| "join_with sep [x] = x"
| "join_with sep (x # y # ys) = x @ sep @ join_with sep (y # ys)"

definition truthy :: "string option \<Rightarrow> bool" where
  \<comment> \<open>a \<open>string | undefined\<close> used as a condition: undefined and the empty string are falsy\<close>
  "truthy v = (case v of None \<Rightarrow> False | Some s \<Rightarrow> s \<noteq> [])"

definition or_else :: "string option \<Rightarrow> string \<Rightarrow> string" where
  \<comment> \<open>\<open>v || d\<close> on an optional string\<close>
  "or_else v d = (case v of None \<Rightarrow> d | Some s \<Rightarrow> if s = [] then d else s)"


section \<open>Data model (types.ts)\<close>

datatype locator_type = TestId | Id | Role | Css

record locator_hint =
  loc_type :: locator_type
  loc_value :: string

record action =
  action_role :: string
  action_name :: string
  action_tag :: string
  action_disabled :: bool
  action_locator :: locator_hint

record section_info =
  section_name :: string
  section_tag :: string
  section_testId :: "string option"

record theme =
  bodyBackground :: string
  bodyTextColor :: string
  bodyFontFamily :: string
  bodyFontSize :: string
  lineHeight :: string
  borderRadii :: "string list"
  cssVariables :: "(string \<times> string) list option"

text \<open>
  A snapshot keeps the fields that the session manager, the resolver and the diff engine
  read. \<open>cssVariables\<close> is a JavaScript object: an association list in key order, absent
  (\<open>None\<close>) in a document that has no such field.
\<close>

record page_snapshot =
  snap_url :: string
  snap_title :: string
  snap_theme :: theme
  snap_sections :: "section_info list"
  snap_actions :: "action list"
  screenshotPath :: "string option"


section \<open>Target resolver (session.ts, findSelector)\<close>

definition action_matches :: "string \<Rightarrow> action \<Rightarrow> bool" where
  "action_matches target a =
     (str_includes (toLowerCase (action_name a)) (toLowerCase target) \<or>
      (loc_type (action_locator a) = TestId \<and>
       str_includes (toLowerCase (loc_value (action_locator a))) (toLowerCase target)))"

definition findSelector :: "string \<Rightarrow> page_snapshot option \<Rightarrow> string" where
  "findSelector target snapshot =
     (if startsWith target ''['' \<or> startsWith target ''#'' \<or> startsWith target ''.'' \<or>
         str_includes target ''=''
      then target
      else
        case (case snapshot of
                None \<Rightarrow> None
              | Some snap \<Rightarrow> find (action_matches target) (snap_actions snap)) of
          Some match \<Rightarrow> loc_value (action_locator match)
        | None \<Rightarrow>
            if is_identifier target
            then ''[data-testid='' @ dquote @ target @ dquote @ '']''
            else ''text='' @ target)"


section \<open>Faults\<close>

text \<open>
  A thrown value is either an \<open>Error\<close> object with its message or any other value, kept as
  the text that \<open>String(value)\<close> gives. Every call that can throw returns \<open>fault + 'a\<close>.
\<close>

datatype fault = ErrorObj string | Thrown string

fun fault_message :: "fault \<Rightarrow> string" where
  \<comment> \<open>\<open>error instanceof Error ? error.message : 'Unknown error'\<close>\<close>
  "fault_message (ErrorObj m) = m"
| "fault_message (Thrown v) = ''Unknown error''"

fun fault_string :: "fault \<Rightarrow> string" where
  \<comment> \<open>\<open>error instanceof Error ? error.message : String(error)\<close>\<close>
  "fault_string (ErrorObj m) = m"
| "fault_string (Thrown v) = v"


section \<open>Diff engine (compare.ts)\<close>

subsection \<open>Numbers\<close>

text \<open>
  The percentage is a JavaScript number: an IEEE 754 double, and every operation on it
  returns the double nearest to the exact result, a tie going to the even significand.
  A finite double is modelled as the real number it denotes; the two special values that a
  division by zero produces are kept apart. Only non-negative numbers occur in the diff
  engine, and only they are modelled.

  \<open>exponent_of x\<close> is the binary exponent of a positive real: the \<open>e\<close> with
  \<open>2 ^ e \<le> x < 2 ^ (e + 1)\<close>. \<open>to_double\<close> rounds a non-negative real to a double:
  the significand has 53 bits, the exponent of a subnormal number stays at \<open>- 1022\<close>, and
  a result of \<open>2 ^ 1024\<close> or more is \<open>Infinity\<close>.
\<close>

datatype number = Num real | PosInf | NaN

definition exponent_of :: "real \<Rightarrow> int" where
  "exponent_of x =
     (if 1 \<le> x then bitlen \<lfloor>x\<rfloor> - 1 else - bitlen (\<lceil>1 / x\<rceil> - 1))"

definition round_half_even :: "real \<Rightarrow> int" where
  \<comment> \<open>the nearest integer, a tie going to the even one\<close>
  "round_half_even y =
     (let f = \<lfloor>y\<rfloor>; d = y - of_int f in
      if d < 1 / 2 then f else if 1 / 2 < d then f + 1 else if even f then f else f + 1)"

definition to_double :: "real \<Rightarrow> number" where
  "to_double x =
     (if x = 0 then Num 0
      else
        let t = max (exponent_of x) (- 1022) - 52;
            y = of_int (round_half_even (x / 2 powi t)) * 2 powi t
        in if 2 ^ 1024 \<le> y then PosInf else Num y)"

definition num_div :: "nat \<Rightarrow> nat \<Rightarrow> number" where
  \<comment> \<open>the quotient of two integer counts; a count below \<open>2 ^ 53\<close> is a double as it stands\<close>
  "num_div a b =
     (if b = 0 then (if a = 0 then NaN else PosInf) else to_double (of_nat a / of_nat b))"

fun num_times :: "number \<Rightarrow> real \<Rightarrow> number" where
  \<comment> \<open>multiplication by a positive constant that is a double\<close>
  "num_times (Num r) c = to_double (r * c)"
| "num_times PosInf c = PosInf"
| "num_times NaN c = NaN"

fun num_over :: "number \<Rightarrow> real \<Rightarrow> number" where
  \<comment> \<open>division by a positive constant that is a double\<close>
  "num_over (Num r) c = to_double (r / c)"
| "num_over PosInf c = PosInf"
| "num_over NaN c = NaN"

fun math_round :: "number \<Rightarrow> number" where
  \<comment> \<open>\<open>Math.round\<close>: the nearest integer, a tie going up; the result is exact\<close>
  "math_round (Num r) = Num (of_int \<lfloor>r + 1 / 2\<rfloor>)"
| "math_round PosInf = PosInf"
| "math_round NaN = NaN"

fun num_gt :: "number \<Rightarrow> real \<Rightarrow> bool" where
  "num_gt (Num r) c = (c < r)"
| "num_gt PosInf c = True"
| "num_gt NaN c = False"

definition show_number :: "number \<Rightarrow> string" where
  \<comment> \<open>the text of the double nearest to a non-negative multiple of 0.01: JavaScript prints
      the shortest decimal that reads back as the same double\<close>
  "show_number x =
     (case x of
        NaN \<Rightarrow> ''NaN''
      | PosInf \<Rightarrow> ''Infinity''
      | Num r \<Rightarrow>
          (let k = nat (round (r * 100)); whole = k div 100; frac = k mod 100 in
           if frac = 0 then show_nat whole
           else if frac mod 10 = 0 then show_nat whole @ ''.'' @ show_nat (frac div 10)
           else show_nat whole @ ''.'' @ show_nat (frac div 10) @ show_nat (frac mod 10)))"

text \<open>
  The two numbers that \<open>compareImages\<close> computes from the count of differing pixels and
  the count of all pixels: the percentage that it compares with the threshold, and the
  percentage that it reports.
\<close>

abbreviation percentage :: "nat \<Rightarrow> nat \<Rightarrow> number" where
  "percentage n tot \<equiv> num_times (num_div n tot) 100"

abbreviation reported_percentage :: "nat \<Rightarrow> nat \<Rightarrow> number" where
  "reported_percentage n tot \<equiv> num_over (math_round (num_times (percentage n tot) 100)) 100"

subsection \<open>Files and images\<close>

record png =
  png_width :: nat
  png_height :: nat
  png_data :: "nat list"

text \<open>
  The file system, the PNG codec, \<open>pixelmatch\<close> and the path functions are libraries:
  the diff engine takes their results from this record. \<open>pixelmatch\<close> returns the
  number of differing pixels and the data of the visualisation.
\<close>

record files =
  existsSync :: "string \<Rightarrow> bool"
  read_png :: "string \<Rightarrow> fault + png"
  pixelmatch :: "nat list \<Rightarrow> nat list \<Rightarrow> nat \<Rightarrow> nat \<Rightarrow> fault + (nat \<times> nat list)"
  write_png :: "string \<Rightarrow> png \<Rightarrow> fault option"
  dirname :: "string \<Rightarrow> string"
  path_join :: "string \<Rightarrow> string \<Rightarrow> string"

datatype file_effect = ReadPng string | Pixelmatch | WritePng string | LogError fault

record image_diff_result =
  diffPercent :: number
  diffPixels :: int
  totalPixels :: nat
  diffImagePath :: "string option"
  hasSignificantChange :: bool

definition image_stats :: "files \<Rightarrow> string \<Rightarrow> png \<Rightarrow> png \<Rightarrow> file_effect list
     \<Rightarrow> image_diff_result option \<times> file_effect list" where
  \<comment> \<open>the same-size branch of \<open>compareImages\<close>, from \<open>new PNG\<close> on\<close>
  "image_stats fs outputDir img1 img2 reads =
     (let width = png_width img1; height = png_height img1 in
      case pixelmatch fs (png_data img1) (png_data img2) width height of
        Inl e \<Rightarrow> (None, reads @ [Pixelmatch, LogError e])
      | Inr (numDiffPixels, diff_data) \<Rightarrow>
          (let totalPixels = width * height;
               percent = num_times (num_div numDiffPixels totalPixels) 100;
               diffPath = path_join fs outputDir ''diff.png''
           in
           case write_png fs diffPath
                  \<lparr>png_width = width, png_height = height, png_data = diff_data\<rparr> of
             Some e \<Rightarrow> (None, reads @ [Pixelmatch, WritePng diffPath, LogError e])
           | None \<Rightarrow>
               (Some \<lparr>diffPercent = num_over (math_round (num_times percent 100)) 100,
                       diffPixels = int numDiffPixels,
                       totalPixels = totalPixels,
                       diffImagePath = Some diffPath,
                       hasSignificantChange = num_gt percent (1 / 2)\<rparr>,
                reads @ [Pixelmatch, WritePng diffPath])))"

definition compareImages ::
  "files \<Rightarrow> string \<Rightarrow> string \<Rightarrow> string \<Rightarrow> image_diff_result option \<times> file_effect list" where
  "compareImages fs beforeImagePath afterImagePath outputDir =
     (if \<not> existsSync fs beforeImagePath \<or> \<not> existsSync fs afterImagePath then (None, [])
      else
        case read_png fs beforeImagePath of
          Inl e \<Rightarrow> (None, [ReadPng beforeImagePath, LogError e])
        | Inr img1 \<Rightarrow>
            (case read_png fs afterImagePath of
               Inl e \<Rightarrow> (None, [ReadPng beforeImagePath, ReadPng afterImagePath, LogError e])
             | Inr img2 \<Rightarrow>
                 (let reads = [ReadPng beforeImagePath, ReadPng afterImagePath] in
                  if png_width img1 \<noteq> png_width img2 \<or> png_height img1 \<noteq> png_height img2
                  then (Some \<lparr>diffPercent = Num 100, diffPixels = - 1,
                               totalPixels = png_width img1 * png_height img1,
                               diffImagePath = None,
                               hasSignificantChange = True\<rparr>, reads)
                  else image_stats fs outputDir img1 img2 reads)))"

subsection \<open>Structural diff\<close>

record theme_diff =
  td_property :: string
  td_before :: string
  td_after :: string

record compare_result =
  res_url :: string
  summary :: string
  themeChanges :: "theme_diff list"
  cssVariableChanges :: "theme_diff list"
  sectionsAdded :: "string list"
  sectionsRemoved :: "string list"
  actionsAdded :: "string list"
  actionsRemoved :: "string list"
  layoutChanges :: "string list"
  imageDiff :: "image_diff_result option"

fun set_add_all :: "'a list \<Rightarrow> 'a list \<Rightarrow> 'a list" where
  "set_add_all acc [] = acc"
| "set_add_all acc (x # xs) = set_add_all (if x \<in> set acc then acc else acc @ [x]) xs"

definition js_set :: "'a list \<Rightarrow> 'a list" where
  \<comment> \<open>\<open>new Set(xs)\<close>, as the list of its members in insertion order\<close>
  "js_set xs = set_add_all [] xs"

definition themeProps :: "(string \<times> (theme \<Rightarrow> string)) list" where
  "themeProps =
     [(''bodyBackground'', bodyBackground), (''bodyTextColor'', bodyTextColor),
      (''bodyFontFamily'', bodyFontFamily), (''bodyFontSize'', bodyFontSize),
      (''lineHeight'', lineHeight)]"

definition diff_theme :: "theme \<Rightarrow> theme \<Rightarrow> theme_diff list" where
  "diff_theme beforeTheme afterTheme =
     concat (map (\<lambda>(prop, get).
        let beforeVal = get beforeTheme; afterVal = get afterTheme in
        if beforeVal \<noteq> afterVal
        then [\<lparr>td_property = prop, td_before = beforeVal, td_after = afterVal\<rparr>]
        else []) themeProps)"

definition var_or :: "(string \<times> string) list \<Rightarrow> string \<Rightarrow> string \<Rightarrow> string" where
  \<comment> \<open>\<open>vars[varName] || d\<close>, for the entries of the object itself: a name that every
      object inherits, such as \<open>constructor\<close>, is outside the model\<close>
  "var_or vars varName d = or_else (map_of vars varName) d"

definition diff_css_variables ::
  "(string \<times> string) list option \<Rightarrow> (string \<times> string) list option \<Rightarrow> theme_diff list" where
  "diff_css_variables bv av =
     (let beforeVars = (case bv of None \<Rightarrow> [] | Some kv \<Rightarrow> kv);
          afterVars = (case av of None \<Rightarrow> [] | Some kv \<Rightarrow> kv);
          allVars = js_set (map fst beforeVars @ map fst afterVars)
      in concat (map (\<lambda>varName.
           let beforeVal = var_or beforeVars varName ''(not set)'';
               afterVal = var_or afterVars varName ''(removed)''
           in if beforeVal \<noteq> afterVal
              then [\<lparr>td_property = varName, td_before = beforeVal, td_after = afterVal\<rparr>]
              else []) allVars))"

definition diff_radii :: "string list \<Rightarrow> string list \<Rightarrow> string list" where
  "diff_radii br ar =
     (let beforeRadii = js_set br; afterRadii = js_set ar;
          addedRadii = filter (\<lambda>r. r \<notin> set beforeRadii) afterRadii;
          removedRadii = filter (\<lambda>r. r \<notin> set afterRadii) beforeRadii
      in if addedRadii \<noteq> [] \<or> removedRadii \<noteq> []
         then [trim (''Border radii: '' @
                 (if removedRadii \<noteq> [] then ''removed '' @ join_with '', '' removedRadii else [])
                 @ '' '' @
                 (if addedRadii \<noteq> [] then ''added '' @ join_with '', '' addedRadii else []))]
         else [])"

definition section_key :: "section_info \<Rightarrow> string" where
  \<comment> \<open>\<open>s.testId || s.name\<close>\<close>
  "section_key s = or_else (section_testId s) (section_name s)"

definition make_summary :: "compare_result \<Rightarrow> string" where
  "make_summary r =
     (let changes =
            (case imageDiff r of
               Some d \<Rightarrow> if hasSignificantChange d
                         then [show_number (diffPercent d) @ ''% visual difference''] else []
             | None \<Rightarrow> []) @
            (if themeChanges r \<noteq> []
             then [show_nat (length (themeChanges r)) @ '' theme changes''] else []) @
            (if cssVariableChanges r \<noteq> []
             then [show_nat (length (cssVariableChanges r)) @ '' CSS variable changes''] else []) @
            (if sectionsAdded r \<noteq> [] \<or> sectionsRemoved r \<noteq> []
             then [''sections: +'' @ show_nat (length (sectionsAdded r)) @ '' -'' @
                   show_nat (length (sectionsRemoved r))] else []) @
            (if layoutChanges r \<noteq> []
             then [show_nat (length (layoutChanges r)) @ '' layout changes''] else []);
          changes' =
            (case imageDiff r of
               Some d \<Rightarrow> if changes = [] \<and> num_gt (diffPercent d) 0
                         then [show_number (diffPercent d) @ ''% pixel difference'']
                         else changes
             | None \<Rightarrow> changes)
      in if changes' \<noteq> [] then ''Changes: '' @ join_with '', '' changes'
         else ''No visual changes detected'')"

definition compareSnapshots ::
  "files \<Rightarrow> page_snapshot \<Rightarrow> page_snapshot \<Rightarrow> string option \<Rightarrow> string option
     \<Rightarrow> compare_result \<times> file_effect list" where
  "compareSnapshots fs beforeSnap afterSnap beforeSnapshotPath afterSnapshotPath =
     (let (image, effects) =
            (if truthy beforeSnapshotPath \<and> truthy afterSnapshotPath then
               let beforeDir = dirname fs (the beforeSnapshotPath);
                   afterDir = dirname fs (the afterSnapshotPath);
                   beforeImage = path_join fs beforeDir ''page-before.png'';
                   afterImage = path_join fs afterDir (or_else (screenshotPath afterSnap) ''page.png'');
                   actualBeforeImage =
                     (if existsSync fs beforeImage then beforeImage
                      else path_join fs beforeDir (or_else (screenshotPath beforeSnap) ''page.png''))
               in compareImages fs actualBeforeImage afterImage afterDir
             else (None, []));
          beforeSections = js_set (map section_key (snap_sections beforeSnap));
          afterSections = js_set (map section_key (snap_sections afterSnap));
          beforeActions = js_set (map action_name (snap_actions beforeSnap));
          afterActions = js_set (map action_name (snap_actions afterSnap));
          result =
            \<lparr>res_url = snap_url afterSnap,
             summary = [],
             themeChanges = diff_theme (snap_theme beforeSnap) (snap_theme afterSnap),
             cssVariableChanges =
               diff_css_variables (cssVariables (snap_theme beforeSnap)) (cssVariables (snap_theme afterSnap)),
             sectionsAdded = filter (\<lambda>s. s \<notin> set beforeSections) afterSections,
             sectionsRemoved = filter (\<lambda>s. s \<notin> set afterSections) beforeSections,
             actionsAdded = filter (\<lambda>a. a \<notin> set beforeActions) afterActions,
             actionsRemoved = filter (\<lambda>a. a \<notin> set afterActions) beforeActions,
             layoutChanges =
               diff_radii (borderRadii (snap_theme beforeSnap)) (borderRadii (snap_theme afterSnap)),
             imageDiff = image\<rparr>
      in (result\<lparr>summary := make_summary result\<rparr>, effects))"


section \<open>Browser calls, their outcomes and the session state\<close>

datatype browser = CdpBrowser nat | LaunchedBrowser

datatype page = CdpPage nat nat | LocalPage

datatype browser_context = PageContext page | LocalContext

text \<open>
  Every call that leaves the program (Playwright, the network, the file system) is a
  \<open>call\<close>, with its arguments and its timeout in milliseconds where the source gives one.
  A function of the model returns, with its result, the calls it made, in order.
\<close>

datatype call =
    ConnectOverCDP nat "nat option"
  | BrowserClose browser
  | ContextClose
  | Launch bool
  | NewContext
  | NewPage
  | PageRoute
  | PageGoto page string nat
  | WaitForLoadState page string nat
  | PageClick string nat
  | PageFill string string nat
  | PageSelectOption string string nat
  | PageHover string nat
  | KeyboardPress string
  | WaitForSelector string nat
  | EvaluateScrollTop
  | EvaluateScrollBottom
  | PageInputValue string nat
  | LocatorTextContent string nat
  | LocatorIsVisible string nat
  | LocatorIsEnabled string nat
  | LocatorGetAttribute string string nat
  | PageScreenshot string nat
  | NewCDPSession
  | CaptureScreenshot
  | CdpDetach
  | WriteFile string
  | ReadFile string
  | CopyFile string string
  | MkDir string
  | ExtractPage page
  | ProbePort nat
  | FetchHead string

record session =
  s_browser :: "browser option"
  s_context :: "browser_context option"
  s_page :: "page option"
  currentUrl :: "string option"
  lastSnapshot :: "page_snapshot option"
  isRemote :: bool

definition initial_session :: session where
  "initial_session =
     \<lparr>s_browser = None, s_context = None, s_page = None, currentUrl = None,
      lastSnapshot = None, isRemote = False\<rparr>"

text \<open>
  The world gives the outcome of every call: \<open>outcome w c = Some f\<close> when the call throws
  (or its promise rejects with) \<open>f\<close>, and \<open>None\<close> when it returns; the value it returns is
  read from the result function of its type. The pages of a debugging browser are the
  URLs of the pages of all its contexts, in order; page \<open>i\<close> of the browser on \<open>port\<close>
  is \<open>CdpPage port i\<close>. \<open>host_of\<close> is \<open>new URL(u).host\<close>, \<open>None\<close> when the URL does not
  parse. The report generators are taken as given functions.
\<close>

record world =
  env_USE_CDP :: bool
  env_HEADED :: bool
  outcome :: "call \<Rightarrow> fault option"
  cdp_pages :: "nat \<Rightarrow> string list"
  host_of :: "string \<Rightarrow> string option"
  page_url :: "page \<Rightarrow> string"
  string_result :: "call \<Rightarrow> string"
  opt_string_result :: "call \<Rightarrow> string option"
  bool_result :: "call \<Rightarrow> bool"
  clock_start :: int
  clock_end :: int
  extraction :: page_snapshot
  baseline_document :: page_snapshot
  file_system :: files
  port_open :: "nat \<Rightarrow> bool"
  valid_page :: "string \<Rightarrow> bool"
  generateReport :: "page_snapshot \<Rightarrow> string"
  formatCompareReport :: "compare_result \<Rightarrow> string"

subsection \<open>Sequencing, throwing and catching\<close>

type_synonym 'a io = "session \<times> call list \<Rightarrow> (fault + 'a) \<times> session \<times> call list"

definition io_return :: "'a \<Rightarrow> 'a io" where
  "io_return x = (\<lambda>st. (Inr x, st))"

definition io_throw :: "fault \<Rightarrow> 'a io" where
  "io_throw f = (\<lambda>st. (Inl f, st))"

definition io_bind :: "'a io \<Rightarrow> ('a \<Rightarrow> 'b io) \<Rightarrow> 'b io" where
  "io_bind m k = (\<lambda>st. case m st of (Inl f, st') \<Rightarrow> (Inl f, st') | (Inr x, st') \<Rightarrow> k x st')"

definition io_catch :: "'a io \<Rightarrow> (fault \<Rightarrow> 'a io) \<Rightarrow> 'a io" where
  \<comment> \<open>\<open>try { m } catch (error) { h error }\<close>\<close>
  "io_catch m h = (\<lambda>st. case m st of (Inl f, st') \<Rightarrow> h f st' | (Inr x, st') \<Rightarrow> (Inr x, st'))"

definition io_get :: "session io" where
  "io_get = (\<lambda>(s, tr). (Inr s, (s, tr)))"

definition io_update :: "(session \<Rightarrow> session) \<Rightarrow> unit io" where
  "io_update g = (\<lambda>(s, tr). (Inr (), (g s, tr)))"

definition io_call :: "world \<Rightarrow> call \<Rightarrow> unit io" where
  \<comment> \<open>make the call: it is recorded, then it returns or throws as the world says\<close>
  "io_call w c = (\<lambda>(s, tr). (case outcome w c of Some f \<Rightarrow> Inl f | None \<Rightarrow> Inr (), (s, tr @ [c])))"

definition io_attempt :: "world \<Rightarrow> call \<Rightarrow> unit io" where
  \<comment> \<open>\<open>await call.catch(() => {})\<close>: the call is made and its rejection is dropped\<close>
  "io_attempt w c = io_catch (io_call w c) (\<lambda>e. io_return ())"

subsection \<open>Session manager (session.ts, tryConnectCDP and getPage)\<close>

definition CDP_PORTS :: "nat list" where
  "CDP_PORTS = [9222, 9229]"

definition usable_url :: "string \<Rightarrow> bool" where
  \<comment> \<open>not an internal page\<close>
  "usable_url u =
     (u \<noteq> [] \<and> \<not> startsWith u ''about:'' \<and> \<not> startsWith u ''chrome://'' \<and>
      \<not> startsWith u ''edge://'' \<and> \<not> startsWith u ''devtools://'')"

definition usable_pages :: "world \<Rightarrow> nat \<Rightarrow> (page \<times> string) list" where
  "usable_pages w port =
     filter (\<lambda>(p, u). usable_url u)
       (map (\<lambda>i. (CdpPage port i, cdp_pages w port ! i)) [0 ..< length (cdp_pages w port)])"

definition find_target_page :: "world \<Rightarrow> string \<Rightarrow> (page \<times> string) list \<Rightarrow> page option" where
  \<comment> \<open>the exact URL first, then the first page on the same host\<close>
  "find_target_page w targetUrl allPages =
     (case find (\<lambda>(p, u). u = targetUrl) allPages of
        Some (p, u) \<Rightarrow> Some p
      | None \<Rightarrow>
          (case host_of w targetUrl of
             None \<Rightarrow> None
           | Some targetHost \<Rightarrow>
               map_option fst (find (\<lambda>(p, u). host_of w u = Some targetHost) allPages)))"

definition connect_port :: "world \<Rightarrow> string option \<Rightarrow> nat \<Rightarrow> (browser \<times> page) option io" where
  \<comment> \<open>one round of the loop of \<open>tryConnectCDP\<close>; \<open>None\<close> goes on to the next port\<close>
  "connect_port w targetUrl port =
     io_catch
       (io_bind (io_call w (ConnectOverCDP port (Some 2000))) (\<lambda>_.
          case usable_pages w port of
            [] \<Rightarrow> io_bind (io_call w (BrowserClose (CdpBrowser port))) (\<lambda>_. io_return None)
          | (first, first_url) # rest \<Rightarrow>
              if truthy targetUrl then
                (case find_target_page w (the targetUrl) ((first, first_url) # rest) of
                   Some matchedPage \<Rightarrow> io_return (Some (CdpBrowser port, matchedPage))
                 | None \<Rightarrow>
                     io_bind (io_call w (PageGoto first (the targetUrl) 30000)) (\<lambda>_.
                     io_bind (io_attempt w (WaitForLoadState first ''networkidle'' 3000)) (\<lambda>_.
                     io_return (Some (CdpBrowser port, first)))))
              else io_return (Some (CdpBrowser port, first))))
       (\<lambda>e. io_return None)"

fun tryConnectCDP_from :: "world \<Rightarrow> string option \<Rightarrow> nat list \<Rightarrow> (browser \<times> page) option io" where
  "tryConnectCDP_from w targetUrl [] = io_return None"
| "tryConnectCDP_from w targetUrl (port # ports) =
     io_bind (connect_port w targetUrl port) (\<lambda>found.
       case found of
         Some bp \<Rightarrow> io_return (Some bp)
       | None \<Rightarrow> tryConnectCDP_from w targetUrl ports)"

definition tryConnectCDP :: "world \<Rightarrow> string option \<Rightarrow> (browser \<times> page) option io" where
  "tryConnectCDP w targetUrl = tryConnectCDP_from w targetUrl CDP_PORTS"

definition ensure_browser :: "world \<Rightarrow> unit io" where
  "ensure_browser w =
     io_bind io_get (\<lambda>s.
       if s_browser s = None then
         io_bind (io_call w (Launch (\<not> env_HEADED w))) (\<lambda>_.
         io_update (\<lambda>s. s\<lparr>s_browser := Some LaunchedBrowser, isRemote := False\<rparr>))
       else io_return ())"

definition ensure_context :: "world \<Rightarrow> unit io" where
  "ensure_context w =
     io_bind io_get (\<lambda>s.
       if s_context s = None then
         io_bind (io_call w NewContext) (\<lambda>_.
         io_update (\<lambda>s. s\<lparr>s_context := Some LocalContext\<rparr>))
       else io_return ())"

definition ensure_page :: "world \<Rightarrow> page io" where
  "ensure_page w =
     io_bind io_get (\<lambda>s.
       case s_page s of
         None \<Rightarrow>
           io_bind (io_call w NewPage) (\<lambda>_.
           io_bind (io_update (\<lambda>s. s\<lparr>s_page := Some LocalPage\<rparr>)) (\<lambda>_.
           io_bind (io_call w PageRoute) (\<lambda>_.
           io_return LocalPage)))
       | Some p \<Rightarrow> io_return p)"

definition navigate_if_needed :: "world \<Rightarrow> string option \<Rightarrow> page \<Rightarrow> unit io" where
  \<comment> \<open>lines 172 to 181 of session.ts\<close>
  "navigate_if_needed w url p =
     io_bind io_get (\<lambda>s.
       if truthy url \<and> url \<noteq> currentUrl s \<and> \<not> isRemote s then
         io_bind (io_call w (PageGoto p (the url) 30000)) (\<lambda>_.
         io_bind (io_attempt w (WaitForLoadState p ''networkidle'' 3000)) (\<lambda>_.
         io_update (\<lambda>s. s\<lparr>currentUrl := url\<rparr>)))
       else if isRemote s then
         io_update (\<lambda>s. s\<lparr>currentUrl := Some (page_url w p)\<rparr>)
       else io_return ())"

definition attach_remote :: "world \<Rightarrow> string option \<Rightarrow> page option io" where
  \<comment> \<open>lines 125 to 136: \<open>Some page\<close> is the early return of \<open>getPage\<close>\<close>
  "attach_remote w url =
     io_bind io_get (\<lambda>s.
       if s_browser s = None \<and> env_USE_CDP w then
         io_bind (tryConnectCDP w url) (\<lambda>cdp.
           case cdp of
             Some (b, p) \<Rightarrow>
               io_bind (io_update (\<lambda>s. s\<lparr>s_browser := Some b, s_page := Some p,
                                         s_context := Some (PageContext p),
                                         currentUrl := Some (page_url w p),
                                         isRemote := True\<rparr>)) (\<lambda>_.
               io_return (Some p))
           | None \<Rightarrow> io_return None)
       else io_return None)"

definition acquire_local :: "world \<Rightarrow> string option \<Rightarrow> page io" where
  \<comment> \<open>lines 138 to 183: launch, context, page and navigation\<close>
  "acquire_local w url =
     io_bind (ensure_browser w) (\<lambda>_.
     io_bind (ensure_context w) (\<lambda>_.
     io_bind (ensure_page w) (\<lambda>p.
     io_bind (navigate_if_needed w url p) (\<lambda>_.
     io_return p))))"

definition getPage :: "world \<Rightarrow> string option \<Rightarrow> page io" where
  "getPage w url =
     io_bind (attach_remote w url) (\<lambda>attached.
       case attached of
         Some p \<Rightarrow> io_return p
       | None \<Rightarrow> acquire_local w url)"

definition closeSession :: "world \<Rightarrow> unit io" where
  "closeSession w =
     io_bind io_get (\<lambda>s.
       if isRemote s then
         io_bind (case s_browser s of
                    Some b \<Rightarrow> io_bind (io_call w (BrowserClose b)) (\<lambda>_.
                                io_update (\<lambda>s. s\<lparr>s_browser := None\<rparr>))
                  | None \<Rightarrow> io_return ()) (\<lambda>_.
         io_update (\<lambda>s. s\<lparr>s_context := None, s_page := None, currentUrl := None,
                            lastSnapshot := None, isRemote := False\<rparr>))
       else
         io_bind (if s_context s \<noteq> None then
                    io_bind (io_call w ContextClose) (\<lambda>_.
                    io_update (\<lambda>s. s\<lparr>s_context := None, s_page := None\<rparr>))
                  else io_return ()) (\<lambda>_.
         io_bind io_get (\<lambda>s.
         io_bind (case s_browser s of
                    Some b \<Rightarrow> io_bind (io_call w (BrowserClose b)) (\<lambda>_.
                                io_update (\<lambda>s. s\<lparr>s_browser := None\<rparr>))
                  | None \<Rightarrow> io_return ()) (\<lambda>_.
         io_update (\<lambda>s. s\<lparr>currentUrl := None, lastSnapshot := None\<rparr>)))))"


section \<open>Interaction executor (session.ts)\<close>

datatype payload =
    NoPayload
  | Value string
  | Attribute "string option"
  | Visibility bool bool

record interaction_result =
  success :: bool
  ir_action :: string
  ir_target :: string
  message :: string
  durationMs :: int
  payload :: payload

definition elapsed :: "world \<Rightarrow> int" where
  \<comment> \<open>\<open>Date.now() - start\<close>\<close>
  "elapsed w = clock_end w - clock_start w"

definition quoted :: "string \<Rightarrow> string" where
  "quoted t = dquote @ t @ dquote"

definition io_call_string :: "world \<Rightarrow> call \<Rightarrow> string io" where
  "io_call_string w c = io_bind (io_call w c) (\<lambda>_. io_return (string_result w c))"

definition io_call_opt_string :: "world \<Rightarrow> call \<Rightarrow> string option io" where
  "io_call_opt_string w c = io_bind (io_call w c) (\<lambda>_. io_return (opt_string_result w c))"

definition io_call_bool :: "world \<Rightarrow> call \<Rightarrow> bool io" where
  "io_call_bool w c = io_bind (io_call w c) (\<lambda>_. io_return (bool_result w c))"

definition click :: "world \<Rightarrow> string \<Rightarrow> string option \<Rightarrow> interaction_result io" where
  "click w target url =
     io_bind (getPage w url) (\<lambda>pg.
     io_bind io_get (\<lambda>s.
     let selector = findSelector target (lastSnapshot s) in
     io_catch
       (io_bind (io_call w (PageClick selector 5000)) (\<lambda>_.
        io_bind (io_attempt w (WaitForLoadState pg ''domcontentloaded'' 2000)) (\<lambda>_.
        io_return \<lparr>success = True, ir_action = ''click'', ir_target = selector,
                    message = ''Clicked '' @ quoted target,
                    durationMs = elapsed w, payload = NoPayload\<rparr>)))
       (\<lambda>error.
        io_return \<lparr>success = False, ir_action = ''click'', ir_target = selector,
                    message = ''Failed to click '' @ quoted target @ '': '' @ fault_message error,
                    durationMs = elapsed w, payload = NoPayload\<rparr>)))"

definition type_text :: "world \<Rightarrow> string \<Rightarrow> string \<Rightarrow> string option \<Rightarrow> interaction_result io" where
  \<comment> \<open>the function \<open>type\<close>\<close>
  "type_text w target text url =
     io_bind (getPage w url) (\<lambda>pg.
     io_bind io_get (\<lambda>s.
     let selector = findSelector target (lastSnapshot s) in
     io_catch
       (io_bind (io_call w (PageFill selector text 5000)) (\<lambda>_.
        io_return \<lparr>success = True, ir_action = ''type'', ir_target = selector,
                    message = ''Typed '' @ quoted text @ '' into '' @ quoted target,
                    durationMs = elapsed w, payload = NoPayload\<rparr>))
       (\<lambda>error.
        io_return \<lparr>success = False, ir_action = ''type'', ir_target = selector,
                    message = ''Failed to type into '' @ quoted target @ '': '' @ fault_message error,
                    durationMs = elapsed w, payload = NoPayload\<rparr>)))"

definition select :: "world \<Rightarrow> string \<Rightarrow> string \<Rightarrow> string option \<Rightarrow> interaction_result io" where
  "select w target val url =
     io_bind (getPage w url) (\<lambda>pg.
     io_bind io_get (\<lambda>s.
     let selector = findSelector target (lastSnapshot s) in
     io_catch
       (io_bind (io_call w (PageSelectOption selector val 5000)) (\<lambda>_.
        io_return \<lparr>success = True, ir_action = ''select'', ir_target = selector,
                    message = ''Selected '' @ quoted val @ '' in '' @ quoted target,
                    durationMs = elapsed w, payload = NoPayload\<rparr>))
       (\<lambda>error.
        io_return \<lparr>success = False, ir_action = ''select'', ir_target = selector,
                    message = ''Failed to select in '' @ quoted target @ '': '' @ fault_message error,
                    durationMs = elapsed w, payload = NoPayload\<rparr>)))"

definition hover :: "world \<Rightarrow> string \<Rightarrow> string option \<Rightarrow> interaction_result io" where
  "hover w target url =
     io_bind (getPage w url) (\<lambda>pg.
     io_bind io_get (\<lambda>s.
     let selector = findSelector target (lastSnapshot s) in
     io_catch
       (io_bind (io_call w (PageHover selector 5000)) (\<lambda>_.
        io_return \<lparr>success = True, ir_action = ''hover'', ir_target = selector,
                    message = ''Hovered over '' @ quoted target,
                    durationMs = elapsed w, payload = NoPayload\<rparr>))
       (\<lambda>error.
        io_return \<lparr>success = False, ir_action = ''hover'', ir_target = selector,
                    message = ''Failed to hover '' @ quoted target @ '': '' @ fault_message error,
                    durationMs = elapsed w, payload = NoPayload\<rparr>)))"

definition press :: "world \<Rightarrow> string \<Rightarrow> string option \<Rightarrow> interaction_result io" where
  "press w key url =
     io_bind (getPage w url) (\<lambda>pg.
     io_catch
       (io_bind (io_call w (KeyboardPress key)) (\<lambda>_.
        io_return \<lparr>success = True, ir_action = ''press'', ir_target = key,
                    message = ''Pressed '' @ quoted key,
                    durationMs = elapsed w, payload = NoPayload\<rparr>))
       (\<lambda>error.
        io_return \<lparr>success = False, ir_action = ''press'', ir_target = key,
                    message = ''Failed to press '' @ quoted key @ '': '' @ fault_message error,
                    durationMs = elapsed w, payload = NoPayload\<rparr>))"

definition waitFor :: "world \<Rightarrow> string \<Rightarrow> string option \<Rightarrow> nat option \<Rightarrow> interaction_result io" where
  "waitFor w target url timeout_arg =
     (let timeoutMs = (case timeout_arg of None \<Rightarrow> 5000 | Some t \<Rightarrow> t) in
      io_bind (getPage w url) (\<lambda>pg.
      io_bind io_get (\<lambda>s.
      let selector = findSelector target (lastSnapshot s) in
      io_catch
        (io_bind (io_call w (WaitForSelector selector timeoutMs)) (\<lambda>_.
         io_return \<lparr>success = True, ir_action = ''waitFor'', ir_target = selector,
                     message = ''Element '' @ quoted target @ '' appeared'',
                     durationMs = elapsed w, payload = NoPayload\<rparr>))
        (\<lambda>error.
         io_return \<lparr>success = False, ir_action = ''waitFor'', ir_target = selector,
                     message = ''Element '' @ quoted target @ '' did not appear within '' @
                               show_nat timeoutMs @ ''ms'',
                     durationMs = elapsed w, payload = NoPayload\<rparr>))))"

definition scroll_step :: "world \<Rightarrow> string \<Rightarrow> unit io" where
  \<comment> \<open>the \<open>switch (direction)\<close> of \<open>scroll\<close>; another direction does nothing\<close>
  "scroll_step w direction =
     (if direction = ''up'' then io_call w (KeyboardPress ''PageUp'')
      else if direction = ''down'' then io_call w (KeyboardPress ''PageDown'')
      else if direction = ''top'' then io_call w EvaluateScrollTop
      else if direction = ''bottom'' then io_call w EvaluateScrollBottom
      else io_return ())"

definition scroll :: "world \<Rightarrow> string \<Rightarrow> string option \<Rightarrow> interaction_result io" where
  "scroll w direction url =
     io_bind (getPage w url) (\<lambda>pg.
     io_catch
       (io_bind (scroll_step w direction) (\<lambda>_.
        io_return \<lparr>success = True, ir_action = ''scroll'', ir_target = direction,
                    message = ''Scrolled '' @ direction,
                    durationMs = elapsed w, payload = NoPayload\<rparr>))
       (\<lambda>error.
        io_return \<lparr>success = False, ir_action = ''scroll'', ir_target = direction,
                    message = ''Failed to scroll '' @ direction @ '': '' @ fault_message error,
                    durationMs = elapsed w, payload = NoPayload\<rparr>))"

definition getValue :: "world \<Rightarrow> string \<Rightarrow> string option \<Rightarrow> interaction_result io" where
  "getValue w target url =
     io_bind (getPage w url) (\<lambda>pg.
     io_bind io_get (\<lambda>s.
     let selector = findSelector target (lastSnapshot s) in
     io_catch
       (io_bind (io_call_string w (PageInputValue selector 5000)) (\<lambda>val.
        io_return \<lparr>success = True, ir_action = ''getValue'', ir_target = selector,
                    message = ''Got value '' @ quoted val @ '' from '' @ quoted target,
                    durationMs = elapsed w, payload = Value val\<rparr>))
       (\<lambda>_.
        io_catch
          (io_bind (io_call_opt_string w (LocatorTextContent selector 2000)) (\<lambda>text.
           io_return \<lparr>success = True, ir_action = ''getValue'', ir_target = selector,
                       message = ''Got text '' @
                                 quoted (case text of None \<Rightarrow> ''null'' | Some t \<Rightarrow> t) @
                                 '' from '' @ quoted target,
                       durationMs = elapsed w, payload = Value (or_else text [])\<rparr>))
          (\<lambda>error.
           io_return \<lparr>success = False, ir_action = ''getValue'', ir_target = selector,
                       message = ''Failed to get value from '' @ quoted target @ '': '' @
                                 fault_message error,
                       durationMs = elapsed w, payload = NoPayload\<rparr>))))"

definition isVisible :: "world \<Rightarrow> string \<Rightarrow> string option \<Rightarrow> interaction_result io" where
  "isVisible w target url =
     io_bind (getPage w url) (\<lambda>pg.
     io_bind io_get (\<lambda>s.
     let selector = findSelector target (lastSnapshot s) in
     io_catch
       (io_bind (io_call_bool w (LocatorIsVisible selector 2000)) (\<lambda>visible.
        io_bind (if visible
                 then io_catch (io_call_bool w (LocatorIsEnabled selector 1000))
                        (\<lambda>_. io_return True)
                 else io_return True) (\<lambda>enabled.
        io_return \<lparr>success = True, ir_action = ''isVisible'', ir_target = selector,
                    message = (if visible
                               then quoted target @ '' is visible'' @
                                    (if enabled then [] else '' (disabled)'')
                               else quoted target @ '' is not visible''),
                    durationMs = elapsed w, payload = Visibility visible enabled\<rparr>)))
       (\<lambda>error.
        io_return \<lparr>success = False, ir_action = ''isVisible'', ir_target = selector,
                    message = ''Failed to check visibility of '' @ quoted target @ '': '' @
                              fault_message error,
                    durationMs = elapsed w, payload = Visibility False False\<rparr>)))"

definition screenshot :: "world \<Rightarrow> string \<Rightarrow> string option \<Rightarrow> bool \<Rightarrow> interaction_result io" where
  \<comment> \<open>\<open>fast\<close> is \<open>options?.fast\<close>\<close>
  "screenshot w outputPath url fast =
     io_bind (getPage w url) (\<lambda>pg.
     io_bind io_get (\<lambda>s.
     io_catch
       (io_bind
          (if fast \<and> \<not> isRemote s then
             io_bind (io_call w NewCDPSession) (\<lambda>_.
             io_bind (io_call w CaptureScreenshot) (\<lambda>_.
             io_bind (io_call w (WriteFile outputPath)) (\<lambda>_.
             io_call w CdpDetach)))
           else io_call w (PageScreenshot outputPath 5000)) (\<lambda>_.
        io_return \<lparr>success = True, ir_action = ''screenshot'', ir_target = outputPath,
                    message = ''Screenshot saved to '' @ quoted outputPath,
                    durationMs = elapsed w, payload = NoPayload\<rparr>))
       (\<lambda>error.
        io_return \<lparr>success = False, ir_action = ''screenshot'', ir_target = outputPath,
                    message = ''Failed to take screenshot: '' @ fault_message error,
                    durationMs = elapsed w, payload = NoPayload\<rparr>)))"

definition getAttribute :: "world \<Rightarrow> string \<Rightarrow> string \<Rightarrow> string option \<Rightarrow> interaction_result io" where
  "getAttribute w target attribute url =
     io_bind (getPage w url) (\<lambda>pg.
     io_bind io_get (\<lambda>s.
     let selector = findSelector target (lastSnapshot s) in
     io_catch
       (io_bind (io_call_opt_string w (LocatorGetAttribute selector attribute 5000)) (\<lambda>val.
        io_return \<lparr>success = True, ir_action = ''getAttribute'', ir_target = selector,
                    message = (case val of
                                 Some v \<Rightarrow> ''Got '' @ attribute @ ''='' @ quoted v @ '' from '' @
                                           quoted target
                               | None \<Rightarrow> quoted target @ '' has no '' @ quoted attribute @
                                         '' attribute''),
                    durationMs = elapsed w, payload = Attribute val\<rparr>))
       (\<lambda>error.
        io_return \<lparr>success = False, ir_action = ''getAttribute'', ir_target = selector,
                    message = ''Failed to get attribute from '' @ quoted target @ '': '' @
                              fault_message error,
                    durationMs = elapsed w, payload = NoPayload\<rparr>)))"

text \<open>The eleven interaction actions as one request type.\<close>

datatype request =
    Click string
  | Type string string
  | Select string string
  | Hover string
  | Press string
  | WaitFor string "nat option"
  | Scroll string
  | GetValue string
  | IsVisible string
  | GetAttribute string string
  | Screenshot string bool

fun run_request :: "world \<Rightarrow> request \<Rightarrow> string option \<Rightarrow> interaction_result io" where
  "run_request w (Click target) url = click w target url"
| "run_request w (Type target text) url = type_text w target text url"
| "run_request w (Select target val) url = select w target val url"
| "run_request w (Hover target) url = hover w target url"
| "run_request w (Press key) url = press w key url"
| "run_request w (WaitFor target timeoutMs) url = waitFor w target url timeoutMs"
| "run_request w (Scroll direction) url = scroll w direction url"
| "run_request w (GetValue target) url = getValue w target url"
| "run_request w (IsVisible target) url = isVisible w target url"
| "run_request w (GetAttribute target attribute) url = getAttribute w target attribute url"
| "run_request w (Screenshot outputPath fast) url = screenshot w outputPath url fast"


section \<open>Page detection (detect.ts)\<close>

definition DEV_PORTS :: "nat list" where
  "DEV_PORTS = [5173, 3000, 3001, 8080, 8000, 4200, 4000, 5000, 5500]"

datatype detected_source = FromCdp nat | FromDevserver nat | FromDefault

definition io_note :: "call \<Rightarrow> unit io" where
  \<comment> \<open>a call whose failure the callee turns into a result: it is recorded only\<close>
  "io_note c = (\<lambda>(s, tr). (Inr (), (s, tr @ [c])))"

definition getActiveTabFromCDP :: "world \<Rightarrow> nat \<Rightarrow> string option io" where
  "getActiveTabFromCDP w port =
     io_catch
       (io_bind (io_call w (ConnectOverCDP port None)) (\<lambda>_.
        io_bind (io_call w (BrowserClose (CdpBrowser port))) (\<lambda>_.
        io_return (find usable_url (cdp_pages w port)))))
       (\<lambda>e. io_return None)"

fun detect_cdp :: "world \<Rightarrow> nat list \<Rightarrow> (string \<times> detected_source) option io" where
  "detect_cdp w [] = io_return None"
| "detect_cdp w (port # ports) =
     io_bind (getActiveTabFromCDP w port) (\<lambda>found.
       case found of
         Some u \<Rightarrow> if u \<noteq> [] then io_return (Some (u, FromCdp port)) else detect_cdp w ports
       | None \<Rightarrow> detect_cdp w ports)"

fun probe_all :: "nat list \<Rightarrow> unit io" where
  "probe_all [] = io_return ()"
| "probe_all (port # ports) = io_bind (io_note (ProbePort port)) (\<lambda>_. probe_all ports)"

definition dev_url :: "nat \<Rightarrow> string" where
  "dev_url port = ''http://localhost:'' @ show_nat port @ ''/''"

fun detect_devserver :: "world \<Rightarrow> nat list \<Rightarrow> (string \<times> detected_source) option io" where
  "detect_devserver w [] = io_return None"
| "detect_devserver w (port # ports) =
     (if port_open w port then
        io_bind (io_note (FetchHead (dev_url port))) (\<lambda>_.
          if valid_page w (dev_url port) then io_return (Some (dev_url port, FromDevserver port))
          else detect_devserver w ports)
      else detect_devserver w ports)"

definition detectActivePage :: "world \<Rightarrow> (string \<times> detected_source) io" where
  "detectActivePage w =
     io_bind (detect_cdp w CDP_PORTS) (\<lambda>from_cdp.
       case from_cdp of
         Some r \<Rightarrow> io_return r
       | None \<Rightarrow>
           io_bind (probe_all DEV_PORTS) (\<lambda>_.
           io_bind (detect_devserver w DEV_PORTS) (\<lambda>from_dev.
             case from_dev of
               Some r \<Rightarrow> io_return r
             | None \<Rightarrow> io_return (''http://localhost:5173/'', FromDefault))))"


section \<open>Analysis and baseline (session.ts, analyze and saveBaseline)\<close>

text \<open>
  The extractors are outside the modelled core: their joint result is the snapshot that
  the world holds, obtained by the single call \<open>ExtractPage\<close>.
\<close>

definition analyze :: "world \<Rightarrow> string \<Rightarrow> string \<Rightarrow> (page_snapshot \<times> string) io" where
  "analyze w url outputDir =
     (let fs = file_system w in
      io_bind (getPage w (Some url)) (\<lambda>pg.
      io_bind (io_call w (ExtractPage pg)) (\<lambda>_.
      io_bind (if \<not> existsSync fs outputDir then io_call w (MkDir outputDir)
               else io_return ()) (\<lambda>_.
      io_bind (io_attempt w (PageScreenshot (path_join fs outputDir ''page.png'') 10000)) (\<lambda>_.
      let snapshot = (extraction w)\<lparr>snap_url := url, screenshotPath := Some ''page.png''\<rparr> in
      io_bind (io_update (\<lambda>s. s\<lparr>lastSnapshot := Some snapshot\<rparr>)) (\<lambda>_.
      let report = generateReport w snapshot in
      io_bind (io_call w (WriteFile (path_join fs outputDir ''snapshot.json''))) (\<lambda>_.
      io_bind (io_call w (WriteFile (path_join fs outputDir ''report.txt''))) (\<lambda>_.
      io_return (snapshot, report)))))))))"

definition saveBaseline :: "world \<Rightarrow> string \<Rightarrow> string io" where
  "saveBaseline w outputDir =
     (let fs = file_system w;
          snapshotPath = path_join fs outputDir ''snapshot.json'';
          shotPath = path_join fs outputDir ''page.png''
      in
      io_bind (if existsSync fs snapshotPath
               then io_call w (CopyFile snapshotPath (path_join fs outputDir ''snapshot-before.json''))
               else io_return ()) (\<lambda>_.
      io_bind (if existsSync fs shotPath
               then io_call w (CopyFile shotPath (path_join fs outputDir ''page-before.png''))
               else io_return ()) (\<lambda>_.
      io_return ''Baseline saved'')))"


section \<open>Tool-invocation boundary (mcp-server.ts)\<close>

record tool_args =
  arg_action :: "string option"
  arg_url :: "string option"
  arg_target :: "string option"
  arg_text :: "string option"
  arg_value :: "string option"
  arg_direction :: "string option"
  arg_key :: "string option"

text \<open>
  The markers that open a reply, as the bytes of the literals in the source file.
\<close>

definition check_mark :: string where
  "check_mark = [CHR 0xC3, CHR 0xA2, CHR 0xC5, CHR 0x93, CHR 0xE2, CHR 0x80, CHR 0xA6]"

definition cross_mark :: string where
  "cross_mark = [CHR 0xC3, CHR 0xA2, CHR 0xC5, CHR 0x92]"

definition pin_mark :: string where
  "pin_mark = [CHR 0xC3, CHR 0xB0, CHR 0xC5, CHR 0xB8, CHR 0xE2, CHR 0x80, CHR 0x9C]"

definition OUTPUT_DIR :: string where
  "OUTPUT_DIR = ''out''"

definition resolveUrl :: "world \<Rightarrow> string option \<Rightarrow> (string \<times> bool \<times> string) io" where
  \<comment> \<open>the URL, whether it was detected, and the text of the source\<close>
  "resolveUrl w providedUrl =
     (if truthy providedUrl then io_return (the providedUrl, False, [])
      else
        io_bind (detectActivePage w) (\<lambda>(u, src).
        io_return (u, True,
          (case src of
             FromCdp port \<Rightarrow> ''browser tab''
           | FromDevserver port \<Rightarrow> ''dev server (port '' @ show_nat port @ '')''
           | FromDefault \<Rightarrow> ''default''))))"

definition render_result :: "interaction_result \<Rightarrow> string" where
  "render_result r =
     (if success r
      then check_mark @ '' '' @ message r @ '' ('' @ show_int (durationMs r) @ ''ms)''
      else cross_mark @ '' '' @ message r)"

definition file_effect_call :: "file_effect \<Rightarrow> call list" where
  "file_effect_call e =
     (case e of ReadPng p \<Rightarrow> [ReadFile p] | WritePng p \<Rightarrow> [WriteFile p] | _ \<Rightarrow> [])"

fun io_note_all :: "call list \<Rightarrow> unit io" where
  "io_note_all [] = io_return ()"
| "io_note_all (c # cs) = io_bind (io_note c) (\<lambda>_. io_note_all cs)"

definition dispatch :: "world \<Rightarrow> tool_args \<Rightarrow> string \<Rightarrow> string \<Rightarrow> string io" where
  \<comment> \<open>the \<open>switch (action)\<close> of the handler, after the URL is resolved\<close>
  "dispatch w args url urlInfo =
     (let action = arg_action args; fs = file_system w in
      if action = Some ''look'' then
        io_bind (analyze w url OUTPUT_DIR) (\<lambda>(snapshot, report).
        io_return (urlInfo @ report))
      else if action = Some ''baseline'' then
        io_bind (analyze w url OUTPUT_DIR) (\<lambda>_.
        io_bind (saveBaseline w OUTPUT_DIR) (\<lambda>_.
        io_return (urlInfo @ check_mark @ '' Baseline saved for '' @ url @
          [CHR 0x0A, CHR 0x0A] @ ''Now make your code changes, then call websight(action='' @
          quoted ''diff'' @ '') to verify.'')))
      else if action = Some ''diff'' then
        (let beforePath = path_join fs OUTPUT_DIR ''snapshot-before.json'' in
         if \<not> existsSync fs beforePath then
           io_return (cross_mark @ '' No baseline found. Call websight(action='' @
             quoted ''baseline'' @ '') first.'')
         else
           io_bind (io_call w (ReadFile beforePath)) (\<lambda>_.
           io_bind (analyze w url OUTPUT_DIR) (\<lambda>(afterSnap, report).
           let (result, effects) =
                 compareSnapshots fs (baseline_document w) afterSnap (Some beforePath)
                   (Some (path_join fs OUTPUT_DIR ''snapshot.json''))
           in
           io_bind (io_note_all (concat (map file_effect_call effects))) (\<lambda>_.
           io_return (urlInfo @ formatCompareReport w result)))))
      else if action = Some ''click'' then
        (if \<not> truthy (arg_target args) then
           io_return (cross_mark @ '' Missing target. Usage: websight(action='' @ quoted ''click'' @
             '', target='' @ quoted ''button text or selector'' @ '')'')
         else
           io_bind (click w (the (arg_target args)) (Some url)) (\<lambda>result.
           io_return (render_result result)))
      else if action = Some ''type'' then
        (if \<not> truthy (arg_target args) \<or> \<not> truthy (arg_text args) then
           io_return (cross_mark @ '' Missing target or text. Usage: websight(action='' @
             quoted ''type'' @ '', target='' @ quoted ''input'' @ '', text='' @ quoted ''hello'' @
             '')'')
         else
           io_bind (type_text w (the (arg_target args)) (the (arg_text args)) (Some url)) (\<lambda>result.
           io_return (render_result result)))
      else if action = Some ''select'' then
        (if \<not> truthy (arg_target args) \<or> \<not> truthy (arg_value args) then
           io_return (cross_mark @ '' Missing target or value. Usage: websight(action='' @
             quoted ''select'' @ '', target='' @ quoted ''dropdown'' @ '', value='' @
             quoted ''option1'' @ '')'')
         else
           io_bind (select w (the (arg_target args)) (the (arg_value args)) (Some url)) (\<lambda>result.
           io_return (render_result result)))
      else if action = Some ''hover'' then
        (if \<not> truthy (arg_target args) then
           io_return (cross_mark @ '' Missing target. Usage: websight(action='' @ quoted ''hover'' @
             '', target='' @ quoted ''element'' @ '')'')
         else
           io_bind (hover w (the (arg_target args)) (Some url)) (\<lambda>result.
           io_return (render_result result)))
      else if action = Some ''scroll'' then
        (let direction = or_else (arg_direction args) ''down'' in
         io_bind (scroll w direction (Some url)) (\<lambda>result.
         io_return (render_result result)))
      else if action = Some ''press'' then
        (if \<not> truthy (arg_key args) then
           io_return (cross_mark @ '' Missing key. Usage: websight(action='' @ quoted ''press'' @
             '', key='' @ quoted ''Enter'' @ '')'')
         else
           io_bind (press w (the (arg_key args)) (Some url)) (\<lambda>result.
           io_return (render_result result)))
      else
        io_return (cross_mark @ '' Unknown action: '' @
          (case action of None \<Rightarrow> ''undefined'' | Some a \<Rightarrow> a) @
          ''. Use: look, baseline, diff, click, type, select, hover, scroll, press''))"

definition call_tool :: "world \<Rightarrow> string \<Rightarrow> tool_args \<Rightarrow> string io" where
  \<comment> \<open>the handler of \<open>CallToolRequestSchema\<close>; the result is the text of the response\<close>
  "call_tool w name args =
     io_catch
       (if name = ''websight'' then
          io_bind (resolveUrl w (arg_url args)) (\<lambda>(url, detected, source).
          let urlInfo = (if detected
                         then pin_mark @ '' Auto-detected: '' @ url @ '' ('' @ source @ '')'' @
                              [CHR 0x0A, CHR 0x0A]
                         else [])
          in dispatch w args url urlInfo)
        else io_return (''Unknown tool: '' @ name))
       (\<lambda>error. io_return (cross_mark @ '' Error: '' @ fault_string error))"


section \<open>Reading a trace\<close>

definition goto_url :: "call \<Rightarrow> string list" where
  "goto_url c = (case c of PageGoto p u t \<Rightarrow> [u] | _ \<Rightarrow> [])"

definition navigations :: "call list \<Rightarrow> string list" where
  \<comment> \<open>the URLs of the navigations of a trace, in order\<close>
  "navigations tr = concat (map goto_url tr)"

definition best_effort :: "call \<Rightarrow> bool" where
  \<comment> \<open>the calls whose failure an action drops or recovers from: the settle wait after a
      click, the enabled probe of \<open>isVisible\<close>, and the first attempt of \<open>getValue\<close>\<close>
  "best_effort c =
     (case c of
        WaitForLoadState p st t \<Rightarrow> True
      | LocatorIsEnabled sel t \<Rightarrow> True
      | PageInputValue sel t \<Rightarrow> True
      | _ \<Rightarrow> False)"

fun request_subject :: "request \<Rightarrow> string" where
  \<comment> \<open>what the caller named: the target, the key, the direction or the output path\<close>
  "request_subject (Click target) = target"
| "request_subject (Type target text) = target"
| "request_subject (Select target val) = target"
| "request_subject (Hover target) = target"
| "request_subject (Press key) = key"
| "request_subject (WaitFor target timeoutMs) = target"
| "request_subject (Scroll direction) = direction"
| "request_subject (GetValue target) = target"
| "request_subject (IsVisible target) = target"
| "request_subject (GetAttribute target attribute) = target"
| "request_subject (Screenshot outputPath fast) = outputPath"

definition explains :: "request \<Rightarrow> fault \<Rightarrow> interaction_result \<Rightarrow> bool" where
  \<comment> \<open>what a failure result says: the subject and the fault's message; \<open>waitFor\<close> gives
      the target and no fault, \<open>screenshot\<close> gives the fault and has the path as its target
      field only\<close>
  "explains req f r =
     (case req of
        WaitFor target timeoutMs \<Rightarrow> str_includes (message r) target
      | Screenshot outputPath fast \<Rightarrow>
          str_includes (message r) (fault_message f) \<and> ir_target r = outputPath
      | _ \<Rightarrow> str_includes (message r) (request_subject req) \<and>
             str_includes (message r) (fault_message f))"



definition session_ok :: "session \<Rightarrow> bool" where
  \<comment> \<open>what every session state satisfies: a remote session has its browser, context and
      page, and a URL is tracked only while there is a browser\<close>
  "session_ok s \<longleftrightarrow>
     (isRemote s \<longrightarrow> s_browser s \<noteq> None \<and> s_context s \<noteq> None \<and> s_page s \<noteq> None) \<and>
     (s_browser s = None \<longrightarrow> currentUrl s = None)"


section \<open>Example inputs\<close>

definition example_files :: "png \<Rightarrow> png \<Rightarrow> nat \<Rightarrow> files" where
  \<comment> \<open>both screenshots exist; the first decodes to \<open>i1\<close>, the second to \<open>i2\<close>\<close>
  "example_files i1 i2 n =
     \<lparr>existsSync = (\<lambda>p. True),
      read_png = (\<lambda>p. if p = ''out/page-before.png'' then Inr i1 else Inr i2),
      pixelmatch = (\<lambda>d1 d2 w h. Inr (n, [])),
      write_png = (\<lambda>p i. None),
      dirname = (\<lambda>p. ''out''),
      path_join = (\<lambda>a b. a @ ''/'' @ b)\<rparr>"

definition example_png :: "nat \<Rightarrow> nat \<Rightarrow> png" where
  "example_png w h = \<lparr>png_width = w, png_height = h, png_data = []\<rparr>"

definition example_theme :: "(string \<times> string) list \<Rightarrow> theme" where
  "example_theme vars =
     \<lparr>bodyBackground = ''rgb(255, 255, 255)'', bodyTextColor = ''rgb(0, 0, 0)'',
      bodyFontFamily = ''Arial'', bodyFontSize = ''16px'', lineHeight = ''normal'',
      borderRadii = [''4px''], cssVariables = Some vars\<rparr>"

definition example_snapshot :: "(string \<times> string) list \<Rightarrow> action list \<Rightarrow> page_snapshot" where
  "example_snapshot vars acts =
     \<lparr>snap_url = ''http://localhost:5173/'', snap_title = ''Demo'',
      snap_theme = example_theme vars, snap_sections = [], snap_actions = acts,
      screenshotPath = Some ''page.png''\<rparr>"

definition example_world :: "(call \<Rightarrow> fault option) \<Rightarrow> world" where
  \<comment> \<open>no debugging browser, no development server; calls fail as \<open>out\<close> says\<close>
  "example_world out =
     \<lparr>env_USE_CDP = False, env_HEADED = False, outcome = out,
      cdp_pages = (\<lambda>port. []), host_of = (\<lambda>u. None),
      page_url = (\<lambda>p. ''http://localhost:5173/''),
      string_result = (\<lambda>c. []), opt_string_result = (\<lambda>c. None), bool_result = (\<lambda>c. True),
      clock_start = 1000, clock_end = 1030,
      extraction = example_snapshot [] [], baseline_document = example_snapshot [] [],
      file_system = example_files (example_png 2 2) (example_png 2 2) 0,
      port_open = (\<lambda>port. False), valid_page = (\<lambda>u. False),
      generateReport = (\<lambda>snap. ''report''), formatCompareReport = summary\<rparr>"

definition example_remote_session :: session where
  "example_remote_session =
     \<lparr>s_browser = Some (CdpBrowser 9222), s_context = Some (PageContext (CdpPage 9222 0)),
      s_page = Some (CdpPage 9222 0), currentUrl = Some ''http://localhost:3000/'',
      lastSnapshot = None, isRemote = True\<rparr>"

definition all_ok :: "call \<Rightarrow> fault option" where
  "all_ok c = None"



definition selector_never_appears :: "call \<Rightarrow> fault option" where
  "selector_never_appears c =
     (case c of
        WaitForSelector sel t \<Rightarrow> Some (ErrorObj ''page.waitForSelector: Timeout exceeded.'')
      | _ \<Rightarrow> None)"

definition example_args :: "string \<Rightarrow> tool_args" where
  \<comment> \<open>a request that names the action and nothing else\<close>
  "example_args a =
     \<lparr>arg_action = Some a, arg_url = None, arg_target = None, arg_text = None,
      arg_value = None, arg_direction = None, arg_key = None\<rparr>"

definition no_debug_browser :: "call \<Rightarrow> fault option" where
  "no_debug_browser c =
     (case c of
        ConnectOverCDP port t \<Rightarrow> Some (ErrorObj ''connect ECONNREFUSED'')
      | _ \<Rightarrow> None)"


section \<open>Properties of the target resolver\<close>

lemma startsWith_single: "startsWith s [c] \<longleftrightarrow> (s \<noteq> [] \<and> hd s = c)"
  by (cases s) (auto simp: startsWith_def)

lemma includes_single: "str_includes s [c] \<longleftrightarrow> c \<in> set s"
proof
  assume "str_includes s [c]"
  then obtain ps ss where "s = ps @ [c] @ ss"
    by (auto simp: str_includes_def sublist_def)
  then show "c \<in> set s" by simp
next
  assume "c \<in> set s"
  then obtain ps ss where "s = ps @ c # ss"
    by (auto dest: split_list)
  then have "s = ps @ [c] @ ss" by simp
  then show "str_includes s [c]"
    unfolding str_includes_def sublist_def by blast
qed

lemma identifier_no_selector_syntax:
  assumes "is_identifier t"
  shows "\<not> startsWith t ''[''" "\<not> startsWith t ''#''" "\<not> startsWith t ''.''"
    "\<not> str_includes t ''=''"
proof -
  have all: "\<forall>c \<in> set t. is_word_char c \<or> c = CHR ''-''" and ne: "t \<noteq> []"
    using assms by (auto simp: is_identifier_def list_all_iff)
  have bad: "\<not> (is_word_char c \<or> c = CHR ''-'')"
    if "c = CHR ''['' \<or> c = CHR ''#'' \<or> c = CHR ''.'' \<or> c = CHR ''=''" for c
    using that by (auto simp: is_word_char_def)
  have hd_in: "hd t \<in> set t" using ne by simp
  show "\<not> startsWith t ''[''" using all hd_in bad[of "hd t"]
    by (auto simp: startsWith_single)
  show "\<not> startsWith t ''#''" using all hd_in bad[of "hd t"]
    by (auto simp: startsWith_single)
  show "\<not> startsWith t ''.''" using all hd_in bad[of "hd t"]
    by (auto simp: startsWith_single)
  show "\<not> str_includes t ''=''" using all bad[of "CHR ''=''"]
    by (auto simp: includes_single)
qed

text \<open>
  C3. A target that starts with an opening bracket, a hash or a dot, or that contains an
  equals sign, is returned unchanged by the resolver, whatever the cached snapshot holds
  (and also when there is none).
\<close>

theorem C3_selector_syntax_verbatim:
  assumes "(target \<noteq> [] \<and> hd target \<in> {CHR ''['', CHR ''#'', CHR ''.''}) \<or> CHR ''='' \<in> set target"
  shows "findSelector target snapshot = target"
  using assms
  by (auto simp: findSelector_def startsWith_single includes_single)

theorem C3_selector_syntax_verbatim_witness:
  "findSelector ''#submit'' None = ''#submit'' \<and>
   findSelector ''input[name=q]''
     (Some \<lparr>snap_url = ''u'', snap_title = ''t'',
            snap_theme = \<lparr>bodyBackground = [], bodyTextColor = [], bodyFontFamily = [],
              bodyFontSize = [], lineHeight = [], borderRadii = [], cssVariables = None\<rparr>,
            snap_sections = [],
            snap_actions = [\<lparr>action_role = ''input:text'', action_name = ''input[name=q]'',
              action_tag = ''input'', action_disabled = False,
              action_locator = \<lparr>loc_type = Id, loc_value = ''#q''\<rparr>\<rparr>],
            screenshotPath = None\<rparr>) = ''input[name=q]''"
proof -
  have a: "(''#submit'' \<noteq> [] \<and> hd ''#submit'' \<in> {CHR ''['', CHR ''#'', CHR ''.''}) \<or>
           CHR ''='' \<in> set ''#submit''"
    by simp
  have b: "(''input[name=q]'' \<noteq> [] \<and> hd ''input[name=q]'' \<in> {CHR ''['', CHR ''#'', CHR ''.''}) \<or>
           CHR ''='' \<in> set ''input[name=q]''"
    by simp
  show ?thesis
    using C3_selector_syntax_verbatim[OF a] C3_selector_syntax_verbatim[OF b] by blast
qed

text \<open>
  C4. A target made of one or more word characters and hyphens (such a target never has
  selector syntax) that no action of the cached snapshot matches, neither in its
  lower-cased name nor, for a test-id locator, in its lower-cased locator value, resolves
  to the test-id attribute query built from the target. The same holds when no snapshot
  is cached.
\<close>

theorem C4_identifier_synthesises_testid:
  assumes "target \<noteq> []"
    and "\<forall>c \<in> set target. is_word_char c \<or> c = CHR ''-''"
    and "\<forall>a \<in> set (case snapshot of None \<Rightarrow> [] | Some snap \<Rightarrow> snap_actions snap).
           \<not> str_includes (toLowerCase (action_name a)) (toLowerCase target) \<and>
           \<not> (loc_type (action_locator a) = TestId \<and>
              str_includes (toLowerCase (loc_value (action_locator a))) (toLowerCase target))"
  shows "findSelector target snapshot = ''[data-testid='' @ [CHR 0x22] @ target @ [CHR 0x22] @ '']''"
proof -
  have ident: "is_identifier target"
    using assms(1,2) by (simp add: is_identifier_def list_all_iff)
  have nomatch: "(case snapshot of None \<Rightarrow> None
                  | Some snap \<Rightarrow> find (action_matches target) (snap_actions snap)) = None"
    using assms(3) by (auto simp: find_None_iff action_matches_def split: option.splits)
  show ?thesis
    using identifier_no_selector_syntax[OF ident] ident nomatch
    by (simp add: findSelector_def dquote_def)
qed

theorem C4_identifier_synthesises_testid_witness:
  "findSelector ''field-name''
     (Some \<lparr>snap_url = ''u'', snap_title = ''t'',
            snap_theme = \<lparr>bodyBackground = [], bodyTextColor = [], bodyFontFamily = [],
              bodyFontSize = [], lineHeight = [], borderRadii = [], cssVariables = None\<rparr>,
            snap_sections = [],
            snap_actions = [\<lparr>action_role = ''button'', action_name = ''Save'',
              action_tag = ''button'', action_disabled = False,
              action_locator = \<lparr>loc_type = TestId, loc_value = ''[data-testid='' @ [CHR 0x22] @ ''btn-save'' @ [CHR 0x22] @ '']''\<rparr>\<rparr>],
            screenshotPath = None\<rparr>)
   = ''[data-testid='' @ [CHR 0x22] @ ''field-name'' @ [CHR 0x22] @ '']''"
proof -
  let ?snap = "Some \<lparr>snap_url = ''u'', snap_title = ''t'',
            snap_theme = \<lparr>bodyBackground = [], bodyTextColor = [], bodyFontFamily = [],
              bodyFontSize = [], lineHeight = [], borderRadii = [], cssVariables = None\<rparr>,
            snap_sections = [],
            snap_actions = [\<lparr>action_role = ''button'', action_name = ''Save'',
              action_tag = ''button'', action_disabled = False,
              action_locator = \<lparr>loc_type = TestId, loc_value = ''[data-testid='' @ [CHR 0x22] @ ''btn-save'' @ [CHR 0x22] @ '']''\<rparr>\<rparr>],
            screenshotPath = None\<rparr>"
  have h1: "''field-name'' \<noteq> []" by simp
  have h2: "\<forall>c \<in> set ''field-name''. is_word_char c \<or> c = CHR ''-''"
    by (simp add: is_word_char_def)
  have h3: "\<forall>a \<in> set (case ?snap of None \<Rightarrow> [] | Some snap \<Rightarrow> snap_actions snap).
           \<not> str_includes (toLowerCase (action_name a)) (toLowerCase ''field-name'') \<and>
           \<not> (loc_type (action_locator a) = TestId \<and>
              str_includes (toLowerCase (loc_value (action_locator a))) (toLowerCase ''field-name''))"
    by code_simp
  show ?thesis
    using C4_identifier_synthesises_testid[OF h1 h2 h3] by simp
qed

text \<open>
  The empty target is not an identifier for the resolver (the pattern asks for one
  character at least): without a snapshot it becomes a text query.
\<close>

lemma empty_target_is_text_query: "findSelector [] None = ''text=''"
  by (simp add: findSelector_def startsWith_def str_includes_def is_identifier_def)


section \<open>Properties of the diff engine\<close>

lemma set_set_add_all: "set (set_add_all acc xs) = set acc \<union> set xs"
  by (induction xs arbitrary: acc) auto

lemma set_js_set: "set (js_set xs) = set xs"
  by (simp add: js_set_def set_set_add_all)

lemma filter_not_member_self: "filter (\<lambda>x. x \<notin> set xs) xs = []"
  by (simp add: filter_empty_conv)

lemma diff_theme_self: "diff_theme t t = []"
  by (simp add: diff_theme_def themeProps_def)

lemma diff_radii_self: "diff_radii rs rs = []"
  by (simp add: diff_radii_def Let_def filter_not_member_self)

text \<open>
  When no CSS variable of a snapshot has the empty string as its value, the diff of the
  snapshot against itself has every change list empty.
\<close>

lemma var_or_present:
  assumes "\<forall>v \<in> snd ` set vars. v \<noteq> []" and "k \<in> fst ` set vars"
  shows "var_or vars k d1 = var_or vars k d2"
proof -
  from assms(2) obtain v where v: "map_of vars k = Some v"
    by (metis domIff dom_map_of_conv_image_fst not_Some_eq)
  then have "(k, v) \<in> set vars" by (rule map_of_SomeD)
  with assms(1) have "v \<noteq> []" by force
  with v show ?thesis by (simp add: var_or_def or_else_def)
qed

lemma diff_css_variables_self:
  assumes "\<forall>v \<in> snd ` set (case vars of None \<Rightarrow> [] | Some kv \<Rightarrow> kv). v \<noteq> []"
  shows "diff_css_variables vars vars = []"
proof -
  let ?kv = "case vars of None \<Rightarrow> [] | Some kv \<Rightarrow> kv"
  have "var_or ?kv k ''(not set)'' = var_or ?kv k ''(removed)''"
    if "k \<in> set (js_set (map fst ?kv @ map fst ?kv))" for k
    using that assms by (intro var_or_present) (auto simp: set_js_set)
  then show ?thesis
    by (simp add: diff_css_variables_def Let_def)
qed

lemma self_diff_empty_without_empty_values:
  assumes "\<forall>v \<in> snd ` set (case cssVariables (snap_theme S) of None \<Rightarrow> [] | Some kv \<Rightarrow> kv). v \<noteq> []"
  shows "themeChanges (fst (compareSnapshots fs S S p1 p2)) = []"
    and "cssVariableChanges (fst (compareSnapshots fs S S p1 p2)) = []"
    and "sectionsAdded (fst (compareSnapshots fs S S p1 p2)) = []"
    and "sectionsRemoved (fst (compareSnapshots fs S S p1 p2)) = []"
    and "actionsAdded (fst (compareSnapshots fs S S p1 p2)) = []"
    and "actionsRemoved (fst (compareSnapshots fs S S p1 p2)) = []"
    and "layoutChanges (fst (compareSnapshots fs S S p1 p2)) = []"
  using diff_css_variables_self[OF assms]
  by (simp_all add: compareSnapshots_def Let_def split_beta diff_theme_self diff_radii_self
        filter_not_member_self)

text \<open>
  C5. The diff of a snapshot against itself should have every change list empty. The
  CSS-variable loop reads each value with \<open>||\<close>, which replaces an empty value as well
  as an absent one: a snapshot whose variable \<open>--gap\<close> has the empty value, compared with
  itself, reports a change from "(not set)" to "(removed)".
\<close>

theorem C5_self_diff_reports_empty_valued_variable:
  "cssVariableChanges
     (fst (compareSnapshots (example_files (example_png 2 2) (example_png 2 2) 0)
            (example_snapshot [(''--gap'', [])] []) (example_snapshot [(''--gap'', [])] [])
            None None))
   = [\<lparr>td_property = ''--gap'', td_before = ''(not set)'', td_after = ''(removed)''\<rparr>]"
  by (simp add: compareSnapshots_def diff_css_variables_def js_set_def var_or_def or_else_def
        truthy_def example_snapshot_def example_theme_def)

text \<open>
  C6. When both screenshots exist and decode, and their widths or heights differ, the
  pixel diff returns a result (it does not raise and does not return null) with a
  percentage of 100, no visualisation path and the significant flag set; it has only read
  the two files: \<open>pixelmatch\<close> was not run and no image was written.
\<close>

theorem C6_dimension_mismatch:
  assumes "existsSync fs beforePath" and "existsSync fs afterPath"
    and "read_png fs beforePath = Inr img1" and "read_png fs afterPath = Inr img2"
    and "png_width img1 \<noteq> png_width img2 \<or> png_height img1 \<noteq> png_height img2"
  shows "compareImages fs beforePath afterPath outputDir =
           (Some \<lparr>diffPercent = Num 100, diffPixels = - 1,
                   totalPixels = png_width img1 * png_height img1,
                   diffImagePath = None, hasSignificantChange = True\<rparr>,
            [ReadPng beforePath, ReadPng afterPath])"
  using assms by (simp add: compareImages_def Let_def)

theorem C6_dimension_mismatch_witness:
  "compareImages (example_files (example_png 1280 720) (example_png 1280 900) 0)
     ''out/page-before.png'' ''out/page.png'' ''out'' =
     (Some \<lparr>diffPercent = Num 100, diffPixels = - 1, totalPixels = 921600,
             diffImagePath = None, hasSignificantChange = True\<rparr>,
      [ReadPng ''out/page-before.png'', ReadPng ''out/page.png''])"
proof -
  let ?fs = "example_files (example_png 1280 720) (example_png 1280 900) 0"
  have e1: "existsSync ?fs ''out/page-before.png''" and e2: "existsSync ?fs ''out/page.png''"
    by (simp_all add: example_files_def)
  have r1: "read_png ?fs ''out/page-before.png'' = Inr (example_png 1280 720)"
    and r2: "read_png ?fs ''out/page.png'' = Inr (example_png 1280 900)"
    by (simp_all add: example_files_def)
  have d: "png_width (example_png 1280 720) \<noteq> png_width (example_png 1280 900) \<or>
           png_height (example_png 1280 720) \<noteq> png_height (example_png 1280 900)"
    by (simp add: example_png_def)
  show ?thesis
    using C6_dimension_mismatch[OF e1 e2 r1 r2 d, of "''out''"] by (simp add: example_png_def)
qed

text \<open>
  C7. The CSS-variable diff should report a key exactly when its two values differ, with
  "(not set)" and "(removed)" standing in for an absent key only. Because the values are
  read with \<open>||\<close>, an empty value is replaced too: a variable that is present with the
  empty value in both snapshots is reported as changed, and one that goes from the empty
  value to "1" is reported with the before-value "(not set)" although the key is set.
\<close>

theorem C7_empty_value_treated_as_absent:
  "diff_css_variables (Some [(''--a'', [])]) (Some [(''--a'', [])]) =
     [\<lparr>td_property = ''--a'', td_before = ''(not set)'', td_after = ''(removed)''\<rparr>] \<and>
   diff_css_variables (Some [(''--a'', [])]) (Some [(''--a'', ''1'')]) =
     [\<lparr>td_property = ''--a'', td_before = ''(not set)'', td_after = ''1''\<rparr>]"
  by (simp add: diff_css_variables_def js_set_def var_or_def or_else_def)

text \<open>The example of the specification: one change, for \<open>B\<close>, from "(not set)" to "2".\<close>

lemma css_variable_added_example:
  "diff_css_variables (Some [(''A'', ''1'')]) (Some [(''A'', ''1''), (''B'', ''2'')]) =
     [\<lparr>td_property = ''B'', td_before = ''(not set)'', td_after = ''2''\<rparr>]"
  by (simp add: diff_css_variables_def js_set_def var_or_def or_else_def)

text \<open>
  When no variable has the empty value, the CSS-variable diff reports exactly the keys of
  either snapshot whose values differ, with the sentinels standing for absent keys.
\<close>

lemma var_or_nonempty:
  assumes "\<forall>v \<in> snd ` set vars. v \<noteq> []" and "d \<noteq> []"
  shows "var_or vars k d = (case map_of vars k of None \<Rightarrow> d | Some v \<Rightarrow> v)"
  using assms
  by (auto simp: var_or_def or_else_def split: option.splits dest!: map_of_SomeD)

lemma diff_css_variables_entries:
  assumes "\<forall>v \<in> snd ` set bv. v \<noteq> []" and "\<forall>v \<in> snd ` set av. v \<noteq> []"
  shows "set (diff_css_variables (Some bv) (Some av)) =
           {\<lparr>td_property = k,
              td_before = (case map_of bv k of None \<Rightarrow> ''(not set)'' | Some v \<Rightarrow> v),
              td_after = (case map_of av k of None \<Rightarrow> ''(removed)'' | Some v \<Rightarrow> v)\<rparr> | k.
            k \<in> fst ` set bv \<union> fst ` set av \<and>
            (case map_of bv k of None \<Rightarrow> ''(not set)'' | Some v \<Rightarrow> v) \<noteq>
            (case map_of av k of None \<Rightarrow> ''(removed)'' | Some v \<Rightarrow> v)}"
proof -
  have b: "var_or bv k ''(not set)'' = (case map_of bv k of None \<Rightarrow> ''(not set)'' | Some v \<Rightarrow> v)"
    for k using var_or_nonempty[OF assms(1), of "''(not set)''" k] by simp
  have a: "var_or av k ''(removed)'' = (case map_of av k of None \<Rightarrow> ''(removed)'' | Some v \<Rightarrow> v)"
    for k using var_or_nonempty[OF assms(2), of "''(removed)''" k] by simp
  show ?thesis
    by (auto simp: diff_css_variables_def Let_def set_js_set a b)
qed

subsection \<open>Rounding to a double\<close>

text \<open>
  \<open>exponent_of\<close> is the binary exponent, and it is the only one.
\<close>

lemma exponent_of_bounds:
  assumes "0 < x"
  shows "2 powi (exponent_of x) \<le> x" and "x < 2 powi (exponent_of x + 1)"
proof -
  show "2 powi (exponent_of x) \<le> x"
  proof (cases "1 \<le> x")
    case True
    then have n: "0 < \<lfloor>x\<rfloor>" by simp
    from bitlen_bounds[OF n] have "2 ^ nat (bitlen \<lfloor>x\<rfloor> - 1) \<le> \<lfloor>x\<rfloor>" by simp
    then have "(2::real) ^ nat (bitlen \<lfloor>x\<rfloor> - 1) \<le> of_int \<lfloor>x\<rfloor>"
      by (metis of_int_le_iff of_int_numeral of_int_power)
    also have "\<dots> \<le> x" by simp
    finally have "(2::real) ^ nat (bitlen \<lfloor>x\<rfloor> - 1) \<le> x" .
    moreover have "0 \<le> bitlen \<lfloor>x\<rfloor> - 1" using n by (simp add: bitlen_alt_def)
    ultimately show ?thesis using True by (simp add: exponent_of_def power_int_nonneg_exp)
  next
    case False
    let ?c = "\<lceil>1 / x\<rceil>"
    have y: "1 < 1 / x" using False assms by simp
    then have c: "0 < ?c - 1" by (simp add: less_ceiling_iff)
    from bitlen_bounds[OF c] have "?c - 1 < 2 ^ nat (bitlen (?c - 1))" by simp
    then have "?c \<le> 2 ^ nat (bitlen (?c - 1))" by simp
    then have "of_int ?c \<le> (2::real) ^ nat (bitlen (?c - 1))"
      by (metis of_int_le_iff of_int_numeral of_int_power)
    moreover have "1 / x \<le> of_int ?c" by simp
    ultimately have "1 / x \<le> (2::real) ^ nat (bitlen (?c - 1))" by linarith
    then have "1 / 2 ^ nat (bitlen (?c - 1)) \<le> x"
      using assms by (simp add: field_simps)
    moreover have "0 \<le> bitlen (?c - 1)" by (rule bitlen_nonneg)
    ultimately show ?thesis using False
      by (simp add: exponent_of_def power_int_minus power_int_nonneg_exp field_simps)
  qed
  show "x < 2 powi (exponent_of x + 1)"
  proof (cases "1 \<le> x")
    case True
    then have n: "0 < \<lfloor>x\<rfloor>" by simp
    from bitlen_bounds[OF n] have "\<lfloor>x\<rfloor> + 1 \<le> 2 ^ nat (bitlen \<lfloor>x\<rfloor>)" by simp
    then have "of_int (\<lfloor>x\<rfloor> + 1) \<le> (2::real) ^ nat (bitlen \<lfloor>x\<rfloor>)"
      by (metis of_int_le_iff of_int_numeral of_int_power)
    moreover have "x < of_int (\<lfloor>x\<rfloor> + 1)" by linarith
    ultimately have "x < (2::real) ^ nat (bitlen \<lfloor>x\<rfloor>)" by linarith
    moreover have "0 \<le> bitlen \<lfloor>x\<rfloor>" by (rule bitlen_nonneg)
    ultimately show ?thesis using True by (simp add: exponent_of_def power_int_nonneg_exp)
  next
    case False
    let ?c = "\<lceil>1 / x\<rceil>"
    have y: "1 < 1 / x" using False assms by simp
    then have c: "0 < ?c - 1" by (simp add: less_ceiling_iff)
    have b: "1 \<le> bitlen (?c - 1)" using c by (simp add: bitlen_alt_def)
    have pw: "(2::real) powi (- bitlen (?c - 1) + 1) = 1 / 2 ^ nat (bitlen (?c - 1) - 1)"
    proof -
      have "(2::real) powi (- bitlen (?c - 1) + 1) = 2 powi (- (bitlen (?c - 1) - 1))" by simp
      also have "\<dots> = 1 / 2 powi (bitlen (?c - 1) - 1)" by (rule power_int_minus_divide)
      also have "\<dots> = 1 / 2 ^ nat (bitlen (?c - 1) - 1)"
        using b by (simp add: power_int_nonneg_exp)
      finally show ?thesis .
    qed
    from bitlen_bounds[OF c] have "2 ^ nat (bitlen (?c - 1) - 1) \<le> ?c - 1" by simp
    then have "(2::real) ^ nat (bitlen (?c - 1) - 1) \<le> of_int (?c - 1)"
      by (metis of_int_le_iff of_int_numeral of_int_power)
    moreover have "of_int (?c - 1) < 1 / x" by linarith
    ultimately have "(2::real) ^ nat (bitlen (?c - 1) - 1) < 1 / x" by linarith
    then have "x < 1 / 2 ^ nat (bitlen (?c - 1) - 1)"
      using assms by (simp add: field_simps)
    with pw False show ?thesis by (simp add: exponent_of_def)
  qed
qed


lemma exponent_of_unique:
  assumes "0 < x" and "2 powi e \<le> x" and "x < 2 powi (e + 1)"
  shows "exponent_of x = e"
proof -
  let ?E = "exponent_of x"
  have lo: "2 powi ?E \<le> x" and hi: "x < 2 powi (?E + 1)"
    using exponent_of_bounds[OF assms(1)] by auto
  have "\<not> e + 1 \<le> ?E"
  proof
    assume "e + 1 \<le> ?E"
    then have "(2::real) powi (e + 1) \<le> 2 powi ?E" by (intro power_int_increasing) simp_all
    with lo assms(3) show False by linarith
  qed
  moreover have "\<not> ?E + 1 \<le> e"
  proof
    assume "?E + 1 \<le> e"
    then have "(2::real) powi (?E + 1) \<le> 2 powi e" by (intro power_int_increasing) simp_all
    with hi assms(2) show False by linarith
  qed
  ultimately show ?thesis by linarith
qed
text \<open>
  Rounding to the nearest integer, ties to even: the result is at most a half away, it is
  monotone with respect to the integers, and anything closer than a half to an integer goes
  to it.
\<close>

lemma round_half_even_near: "\<bar>of_int (round_half_even y) - y\<bar> \<le> 1 / 2"
  unfolding round_half_even_def Let_def by (auto simp: abs_if) linarith+

lemma round_half_even_of_int [simp]: "round_half_even (of_int k) = k"
  by (simp add: round_half_even_def)

lemma round_half_even_tie:
  "round_half_even (of_int k + 1 / 2) = (if even k then k else k + 1)"
proof -
  have "\<lfloor>of_int k + (1::real) / 2\<rfloor> = k" by linarith
  then show ?thesis by (simp add: round_half_even_def Let_def)
qed

lemma round_half_even_ge: "of_int k \<le> y \<Longrightarrow> k \<le> round_half_even y"
  unfolding round_half_even_def Let_def by (auto simp: le_floor_iff) linarith+

lemma round_half_even_le: "y \<le> of_int k \<Longrightarrow> round_half_even y \<le> k"
proof -
  assume a: "y \<le> of_int k"
  show ?thesis
  proof (cases "y = of_int k")
    case True
    then show ?thesis by simp
  next
    case False
    with a have "y < of_int k" by simp
    then have "\<lfloor>y\<rfloor> < k" by (simp add: floor_less_iff)
    then show ?thesis unfolding round_half_even_def Let_def by auto
  qed
qed

lemma round_half_even_eq:
  assumes "\<bar>y - of_int m\<bar> < 1 / 2"
  shows "round_half_even y = m"
proof -
  have "\<bar>of_int (round_half_even y) - y\<bar> \<le> 1 / 2" by (rule round_half_even_near)
  with assms have "\<bar>of_int (round_half_even y) - (of_int m :: real)\<bar> < 1" by linarith
  then have "\<bar>round_half_even y - m\<bar> < 1"
    by (metis of_int_abs of_int_diff of_int_less_iff of_int_1)
  then show ?thesis by linarith
qed
text \<open>
  A double is computed from the exponent and the rounded significand. In the normal range
  the result stays in the binade of its argument and is at most half a unit in the last
  place away from it, so that the relative error is at most \<open>2 ^ - 53\<close>; an integer below
  \<open>2 ^ 53\<close> is a double; and whatever is at most \<open>1 / 2 + 2 ^ - 54\<close> rounds to at most
  \<open>1 / 2\<close>.
\<close>

lemma to_double_at:
  assumes "0 < x" and "2 powi e \<le> x" and "x < 2 powi (e + 1)"
    and "- 1022 \<le> e"
    and "round_half_even (x / 2 powi (e - 52)) = m"
    and "of_int m * 2 powi (e - 52) < (2::real) ^ 1024"
  shows "to_double x = Num (of_int m * 2 powi (e - 52))"
proof -
  have E: "exponent_of x = e" using assms(1-3) by (rule exponent_of_unique)
  have mx: "max e (- 1022) = e" using assms(4) by simp
  show ?thesis
    using assms(1,6) by (simp add: to_double_def E mx assms(5) Let_def)
qed

lemma to_double_eval:
  assumes "0 < x" and "2 powi e \<le> x" and "x < 2 powi (e + 1)"
    and "- 1022 \<le> e" and "e \<le> 1023"
    and "\<bar>x / 2 powi (e - 52) - of_int m\<bar> < 1 / 2"
    and "of_int m * 2 powi (e - 52) < (2::real) ^ 1024"
  shows "to_double x = Num (of_int m * 2 powi (e - 52))"
proof -
  have E: "exponent_of x = e" using assms(1-3) by (rule exponent_of_unique)
  have r: "round_half_even (x / 2 powi (e - 52)) = m"
    using assms(6) by (rule round_half_even_eq)
  have mx: "max e (- 1022) = e" using assms(4) by simp
  show ?thesis
    using assms(1,7) by (simp add: to_double_def E mx r Let_def)
qed

lemma to_double_normal:
  assumes "0 < x" and "- 1022 \<le> exponent_of x" and "exponent_of x \<le> 1022"
  shows "\<exists>y. to_double x = Num y \<and> \<bar>y - x\<bar> \<le> 2 powi (exponent_of x - 53)
            \<and> 2 powi (exponent_of x) \<le> y \<and> y \<le> 2 powi (exponent_of x + 1)"
proof -
  define e where "e = exponent_of x"
  define s :: real where "s = 2 powi (e - 52)"
  define q where "q = x / s"
  define m where "m = round_half_even q"
  have s0: "0 < s" by (simp add: s_def)
  have lo: "2 powi e \<le> x" and hi: "x < 2 powi (e + 1)"
    using exponent_of_bounds[OF assms(1)] by (auto simp: e_def)
  have pe: "(2::real) powi e = 2 ^ 52 * s"
    unfolding s_def by (simp add: power_int_diff)
  have pe1: "(2::real) powi (e + 1) = 2 ^ 53 * s"
    unfolding s_def by (simp add: power_int_diff power_int_add)
  have pe53: "(2::real) powi (e - 53) = s / 2"
    unfolding s_def by (simp add: power_int_diff)
  have x: "x = q * s" using s0 by (simp add: q_def)
  have qlo: "2 ^ 52 \<le> q" using lo s0 unfolding pe x by simp
  have qhi: "q \<le> 2 ^ 53" using hi s0 unfolding pe1 x by simp
  have "of_int (2 ^ 52) \<le> q" using qlo by simp
  then have mlo: "2 ^ 52 \<le> m" unfolding m_def by (rule round_half_even_ge)
  have "q \<le> of_int (2 ^ 53)" using qhi by simp
  then have mhi: "m \<le> 2 ^ 53" unfolding m_def by (rule round_half_even_le)
  define y where "y = of_int m * s"
  have near: "\<bar>of_int m - q\<bar> \<le> 1 / 2" unfolding m_def by (rule round_half_even_near)
  have "y - x = (of_int m - q) * s" by (simp add: y_def x left_diff_distrib)
  then have "\<bar>y - x\<bar> = \<bar>of_int m - q\<bar> * s"
    using s0 by (simp add: abs_mult)
  also have "\<dots> \<le> (1 / 2) * s" using near s0 by (intro mult_right_mono) simp_all
  finally have err: "\<bar>y - x\<bar> \<le> 2 powi (e - 53)" by (simp add: pe53)
  have "(2::real) ^ 52 \<le> of_int m" using mlo by (metis of_int_le_iff of_int_numeral of_int_power)
  then have ylo: "2 powi e \<le> y" unfolding pe y_def using s0 by simp
  have "of_int m \<le> (2::real) ^ 53" using mhi by (metis of_int_le_iff of_int_numeral of_int_power)
  then have yhi: "y \<le> 2 powi (e + 1)" unfolding pe1 y_def using s0 by simp
  have "(2::real) powi (e + 1) \<le> 2 powi 1023"
    using assms(3) by (intro power_int_increasing) (simp_all add: e_def)
  also have "\<dots> < (2::real) ^ 1024" by simp
  finally have nov: "\<not> 2 ^ 1024 \<le> y" using yhi by linarith
  have mx: "max e (- 1022) = e" using assms(2) by (simp add: e_def)
  have "to_double x = Num y"
    using assms(1) nov
    by (simp add: to_double_def Let_def mx y_def m_def q_def s_def flip: e_def)
  with err ylo yhi show ?thesis unfolding e_def by blast
qed


lemma exponent_of_range:
  assumes "2 powi lo \<le> x" and "x < 2 powi hi"
  shows "lo \<le> exponent_of x" and "exponent_of x < hi"
proof -
  have x0: "0 < x" using assms(1) by (smt (verit) zero_less_power_int)
  have b1: "2 powi (exponent_of x) \<le> x" and b2: "x < 2 powi (exponent_of x + 1)"
    using exponent_of_bounds[OF x0] by auto
  show "lo \<le> exponent_of x"
  proof (rule ccontr)
    assume "\<not> lo \<le> exponent_of x"
    then have "exponent_of x + 1 \<le> lo" by simp
    then have "(2::real) powi (exponent_of x + 1) \<le> 2 powi lo"
      by (intro power_int_increasing) simp_all
    with b2 assms(1) show False by linarith
  qed
  show "exponent_of x < hi"
  proof (rule ccontr)
    assume "\<not> exponent_of x < hi"
    then have "hi \<le> exponent_of x" by simp
    then have "(2::real) powi hi \<le> 2 powi (exponent_of x)"
      by (intro power_int_increasing) simp_all
    with b1 assms(2) show False by linarith
  qed
qed

lemma to_double_rel:
  assumes "2 powi (- 1022) \<le> x" and "x < 2 powi 1023"
  shows "\<exists>y. to_double x = Num y \<and> \<bar>y - x\<bar> \<le> x / 2 ^ 53"
proof -
  have x0: "0 < x" using assms(1) by (smt (verit) zero_less_power_int)
  have e1: "- 1022 \<le> exponent_of x" and e2: "exponent_of x < 1023"
    using exponent_of_range[OF assms] by auto
  from e2 have e3: "exponent_of x \<le> 1022" by simp
  obtain y where y: "to_double x = Num y" "\<bar>y - x\<bar> \<le> 2 powi (exponent_of x - 53)"
    using to_double_normal[OF x0 e1 e3] by blast
  have "(2::real) powi (exponent_of x - 53) = 2 powi (exponent_of x) / 2 ^ 53"
    by (simp add: power_int_diff)
  also have "\<dots> \<le> x / 2 ^ 53"
    using exponent_of_bounds(1)[OF x0] by (simp add: divide_right_mono)
  finally show ?thesis using y by fastforce
qed

lemma to_double_nat:
  assumes "n < 2 ^ 53"
  shows "to_double (real n) = Num (real n)"
proof (cases "n = 0")
  case True
  then show ?thesis by (simp add: to_double_def)
next
  case False
  define x where "x = real n"
  define e where "e = exponent_of x"
  have x0: "0 < x" using False by (simp add: x_def)
  have "2 powi 0 \<le> x" using False by (simp add: x_def)
  moreover have "x < 2 powi 53" using assms unfolding x_def
    by (metis of_nat_less_iff of_nat_numeral of_nat_power power_int_numeral)
  ultimately have e0: "0 \<le> e" and e53: "e < 53"
    using exponent_of_range[of 0 x 53] by (auto simp: e_def)
  have lo: "2 powi e \<le> x" and hi: "x < 2 powi (e + 1)"
    using exponent_of_bounds[OF x0] by (auto simp: e_def)
  define k where "k = nat (52 - e)"
  define m where "m = int n * 2 ^ k"
  have pk: "(2::real) powi (e - 52) = 1 / 2 ^ k"
  proof -
    have "e - 52 = - int k" using e53 by (simp add: k_def)
    then show ?thesis by (simp add: power_int_minus divide_simps)
  qed
  have q: "x / 2 powi (e - 52) = of_int m" by (simp add: pk m_def x_def)
  have v: "of_int m * 2 powi (e - 52) = x" by (simp add: pk m_def x_def)
  have "x < 2 ^ 1024"
  proof -
    have "x < 2 powi 53" by fact
    also have "\<dots> \<le> (2::real) ^ 1024" by simp
    finally show ?thesis .
  qed
  then have "to_double x = Num (of_int m * 2 powi (e - 52))"
    using e0 e53 by (intro to_double_eval[OF x0 lo hi]) (simp_all add: q v)
  then show ?thesis by (simp add: v x_def)
qed

lemma to_double_le_half:
  assumes "2 powi (- 1022) \<le> z" and "z \<le> 1 / 2 + 1 / 2 ^ 54"
  shows "\<exists>y. to_double z = Num y \<and> y \<le> 1 / 2"
proof (cases "z < 1 / 2")
  case True
  have z0: "0 < z" using assms(1) by (smt (verit) zero_less_power_int)
  have "z < 2 powi (- 1)" using True by (simp add: power_int_minus)
  then have e: "- 1022 \<le> exponent_of z" "exponent_of z < - 1"
    using exponent_of_range[OF assms(1), of "- 1"] by auto
  then have "exponent_of z \<le> 1022" by simp
  then obtain y where y: "to_double z = Num y" "y \<le> 2 powi (exponent_of z + 1)"
    using to_double_normal[OF z0 e(1)] by blast
  have "(2::real) powi (exponent_of z + 1) \<le> 2 powi (- 1)"
    using e(2) by (intro power_int_increasing) simp_all
  then have "y \<le> 1 / 2" using y(2) by (simp add: power_int_minus)
  with y(1) show ?thesis by blast
next
  case False
  then have zlo: "1 / 2 \<le> z" by simp
  have z0: "0 < z" using zlo by simp
  have "(1::real) / 2 + 1 / 2 ^ 54 < 1" by simp
  then have z1: "z < 1" using assms(2) by linarith
  have "\<bar>z / 2 powi (- 1 - 52) - of_int (2 ^ 52)\<bar> < 1 / 2 \<or> z = 1 / 2 + 1 / 2 ^ 54"
    using zlo assms(2) by (simp add: power_int_minus abs_if field_simps) linarith
  then show ?thesis
  proof
    assume a: "\<bar>z / 2 powi (- 1 - 52) - of_int (2 ^ 52)\<bar> < 1 / 2"
    have "to_double z = Num (of_int (2 ^ 52) * 2 powi (- 1 - 52))"
      using zlo z1 by (intro to_double_eval[OF z0 _ _ _ _ a]) (simp_all add: power_int_minus)
    then have "to_double z = Num (1 / 2)" by (simp add: power_int_minus)
    then show ?thesis by (intro exI[of _ "1 / 2"]) simp
  next
    assume a: "z = 1 / 2 + 1 / 2 ^ 54"
    have "z / 2 powi (- 1 - 52) = of_int (2 ^ 52) + 1 / 2"
      unfolding a by (simp add: power_int_minus)
    then have r: "round_half_even (z / 2 powi (- 1 - 52)) = 2 ^ 52"
      by (simp only: round_half_even_tie) simp
    have "to_double z = Num (of_int (2 ^ 52) * 2 powi (- 1 - 52))"
      using zlo z1 by (intro to_double_at[OF z0 _ _ _ r]) (simp_all add: power_int_minus)
    then have "to_double z = Num (1 / 2)" by (simp add: power_int_minus)
    then show ?thesis by (intro exI[of _ "1 / 2"]) simp
  qed
qed


lemma to_double_zero [simp]: "to_double 0 = Num 0"
  by (simp add: to_double_def)

lemma to_double_mid:
  assumes "1 / 2 ^ 60 \<le> x" and "x \<le> 2 ^ 20"
  shows "\<exists>y. to_double x = Num y \<and> \<bar>y - x\<bar> \<le> x / 2 ^ 53"
proof -
  have "(2::real) powi (- 1022) \<le> 1 / 2 ^ 60" by (simp add: power_int_minus)
  then have lo: "2 powi (- 1022) \<le> x" using assms(1) by linarith
  have "(2::real) ^ 20 < 2 powi 1023" by simp
  then have hi: "x < 2 powi 1023" using assms(2) by linarith
  show ?thesis using lo hi by (rule to_double_rel)
qed
text \<open>
  The errors of the three roundings between the counts and the argument of
  \<open>Math.round\<close>, and of the one after it.
\<close>

lemma rel_bounds:
  fixes y v :: real
  assumes "\<bar>y - v\<bar> \<le> v / 2 ^ 53"
  shows "v - v / 2 ^ 53 \<le> y" and "y \<le> v + v / 2 ^ 53"
  using assms by linarith+

lemma rel_half:
  fixes y v :: real
  assumes "\<bar>y - v\<bar> \<le> v / 2 ^ 53" and "0 \<le> v"
  shows "v / 2 \<le> y" and "y \<le> 2 * v"
proof -
  have "v / 2 ^ 53 \<le> v / 2" using assms(2) by (intro divide_left_mono) simp_all
  then show "v / 2 \<le> y" using rel_bounds(1)[OF assms(1)] by linarith
  have "v / 2 ^ 53 \<le> v" using assms(2) by (simp add: field_simps)
  then show "y \<le> 2 * v" using rel_bounds(2)[OF assms(1)] by linarith
qed

lemma chain_bound:
  fixes a b c x :: real
  assumes a: "\<bar>a - x\<bar> \<le> x / 2 ^ 53"
    and b: "\<bar>b - a * 100\<bar> \<le> (a * 100) / 2 ^ 53"
    and c: "\<bar>c - b * 100\<bar> \<le> (b * 100) / 2 ^ 53"
    and x: "0 \<le> x" "x \<le> 1"
  shows "\<bar>c - 10000 * x\<bar> \<le> 40100 / 2 ^ 53" and "0 \<le> c"
proof -
  have "x / 2 ^ 53 \<le> 1 / 2 ^ 53" using x(2) by (intro divide_right_mono) simp_all
  then have a1: "\<bar>a - x\<bar> \<le> 1 / 2 ^ 53" using a by linarith
  have a0: "0 \<le> a" "a \<le> 2" using rel_half[OF a x(1)] x by linarith+
  have "(a * 100) / 2 ^ 53 \<le> 200 / 2 ^ 53" using a0(2) by (intro divide_right_mono) simp_all
  then have b1: "\<bar>b - a * 100\<bar> \<le> 200 / 2 ^ 53" using b by linarith
  have a100: "0 \<le> a * 100" using a0 by simp
  have b0: "0 \<le> b" "b \<le> 400" using rel_half[OF b a100] a0 by linarith+
  have bx: "\<bar>b - 100 * x\<bar> \<le> 300 / 2 ^ 53" using a1 b1 by linarith
  have "(300::real) / 2 ^ 53 \<le> 1" by simp
  then have b101: "b \<le> 101" using bx x(2) by linarith
  have "(b * 100) / 2 ^ 53 \<le> 10100 / 2 ^ 53" using b101 by (intro divide_right_mono) simp_all
  then have c1: "\<bar>c - b * 100\<bar> \<le> 10100 / 2 ^ 53" using c by linarith
  show "\<bar>c - 10000 * x\<bar> \<le> 40100 / 2 ^ 53" using c1 bx by linarith
  have b100: "0 \<le> b * 100" using b0 by simp
  show "0 \<le> c" using rel_half(1)[OF c b100] b0 by linarith
qed

lemma chain_range:
  fixes a b x :: real
  assumes a: "\<bar>a - x\<bar> \<le> x / 2 ^ 53"
    and b: "\<bar>b - a * 100\<bar> \<le> (a * 100) / 2 ^ 53"
    and x: "1 / 2 ^ 51 \<le> x" "x \<le> 1"
  shows "1 / 2 ^ 60 \<le> a * 100" "a * 100 \<le> 2 ^ 20" "1 / 2 ^ 60 \<le> b * 100" "b * 100 \<le> 2 ^ 20"
proof -
  have x0: "0 \<le> x" using x(1) by (smt (verit) divide_nonneg_nonneg zero_le_power)
  have a0: "x / 2 \<le> a" "a \<le> 2 * x" using rel_half[OF a x0] by auto
  have a1: "0 \<le> a * 100" using a0 x0 by linarith
  have b0: "a * 100 / 2 \<le> b" "b \<le> 2 * (a * 100)" using rel_half[OF b a1] by auto
  show "1 / 2 ^ 60 \<le> a * 100" using a0 x by simp
  show "a * 100 \<le> 2 ^ 20" using a0 x by simp
  show "1 / 2 ^ 60 \<le> b * 100" using a0 b0 x by simp
  show "b * 100 \<le> 2 ^ 20" using a0 b0 x by simp
qed


lemma threshold_up:
  fixes a b x :: real
  assumes a: "\<bar>a - x\<bar> \<le> x / 2 ^ 53"
    and b: "\<bar>b - a * 100\<bar> \<le> (a * 100) / 2 ^ 53"
    and x: "1 + 1 / 2 ^ 51 \<le> 200 * x"
  shows "1 / 2 < b"
  using rel_bounds(1)[OF a] rel_bounds(1)[OF b] x by simp

lemma threshold_down:
  fixes a x :: real
  assumes a: "\<bar>a - x\<bar> \<le> x / 2 ^ 53" and x: "x \<le> 1 / 200"
  shows "a * 100 \<le> 1 / 2 + 1 / 2 ^ 54"
  using rel_bounds(2)[OF a] x by simp

lemma rounded_bound:
  fixes c x :: real
  assumes cx: "\<bar>c - 10000 * x\<bar> \<le> 40100 / 2 ^ 53" and c0: "0 \<le> c" and x: "x \<le> 1"
  defines "K \<equiv> \<lfloor>c + 1 / 2\<rfloor>"
  shows "\<bar>real_of_int K - 10000 * x\<bar> \<le> 1 / 2 + 1 / 10 ^ 11" and "0 \<le> K" and "K \<le> 10000"
proof -
  have Kc: "\<bar>real_of_int K - c\<bar> \<le> 1 / 2" unfolding K_def by linarith
  have e: "(40100::real) / 2 ^ 53 \<le> 1 / 10 ^ 11" by simp
  show Kx: "\<bar>real_of_int K - 10000 * x\<bar> \<le> 1 / 2 + 1 / 10 ^ 11" using cx Kc e by linarith
  show "0 \<le> K" using c0 unfolding K_def by linarith
  have "(1::real) / 10 ^ 11 < 1 / 2" by simp
  then have "real_of_int K < 10001" using Kx x by linarith
  then show "K \<le> 10000" by linarith
qed

lemma reported_bound:
  fixes q x :: real
  assumes Kx: "\<bar>real_of_int K - 10000 * x\<bar> \<le> 1 / 2 + 1 / 10 ^ 11"
    and q: "\<bar>q - real_of_int K / 100\<bar> \<le> (real_of_int K / 100) / 2 ^ 53"
    and K: "0 \<le> K" "K \<le> 10000"
  shows "\<bar>q - x * 100\<bar> \<le> 1 / 200 + 1 / 10 ^ 12"
proof -
  have k: "0 \<le> real_of_int K" "real_of_int K \<le> 10000" using K by simp_all
  have "(real_of_int K / 100) / 2 ^ 53 \<le> (10000 / 100) / 2 ^ 53"
    using k(2) by (intro divide_right_mono) simp_all
  then have q1: "\<bar>q - real_of_int K / 100\<bar> \<le> 100 / 2 ^ 53" using q by simp
  have "\<bar>real_of_int K / 100 - x * 100\<bar> = \<bar>real_of_int K - 10000 * x\<bar> / 100"
    by (simp add: abs_if field_simps)
  also have "\<dots> \<le> (1 / 2 + 1 / 10 ^ 11) / 100" using Kx by (intro divide_right_mono) simp_all
  finally have k1: "\<bar>real_of_int K / 100 - x * 100\<bar> \<le> (1 / 2 + 1 / 10 ^ 11) / 100" .
  have e: "(100::real) / 2 ^ 53 + (1 / 2 + 1 / 10 ^ 11) / 100 \<le> 1 / 200 + 1 / 10 ^ 12" by simp
  show ?thesis using q1 k1 e by linarith
qed
text \<open>
  The percentage and the reported percentage of \<open>n\<close> differing pixels out of \<open>tot\<close>, for
  an image of fewer than \<open>2 ^ 51\<close> pixels.
\<close>

lemma ratio_bounds:
  assumes "0 < n" and "n \<le> tot" and "tot < 2 ^ 51"
  shows "1 / 2 ^ 51 \<le> real n / real tot" and "real n / real tot \<le> 1"
proof -
  have t: "real tot < 2 ^ 51" using assms(3)
    by (metis of_nat_less_iff of_nat_numeral of_nat_power)
  have t0: "0 < real tot" using assms(1,2) by simp
  have n1: "1 \<le> real n" using assms(1) by simp
  have "1 / 2 ^ 51 \<le> 1 / real tot" using t t0 by (simp add: field_simps)
  also have "\<dots> \<le> real n / real tot" using n1 t0 by (simp add: divide_right_mono)
  finally show "1 / 2 ^ 51 \<le> real n / real tot" .
  show "real n / real tot \<le> 1" using assms(2) t0 by simp
qed

lemma percentage_value:
  assumes "0 < n" and "n \<le> tot" and "tot < 2 ^ 51"
  shows "\<exists>a b. \<bar>a - real n / real tot\<bar> \<le> (real n / real tot) / 2 ^ 53
            \<and> percentage n tot = Num b \<and> to_double (a * 100) = Num b
            \<and> \<bar>b - a * 100\<bar> \<le> (a * 100) / 2 ^ 53"
proof -
  define x where "x = real n / real tot"
  have x: "1 / 2 ^ 51 \<le> x" "x \<le> 1" using ratio_bounds[OF assms] by (auto simp: x_def)
  have "1 / 2 ^ 60 \<le> x" "x \<le> 2 ^ 20" using x by simp_all
  then obtain a where a: "to_double x = Num a" "\<bar>a - x\<bar> \<le> x / 2 ^ 53"
    using to_double_mid by blast
  have "1 / 2 ^ 60 \<le> a * 100" "a * 100 \<le> 2 ^ 20"
    using rel_bounds[OF a(2)] x by simp_all
  then obtain b where b: "to_double (a * 100) = Num b" "\<bar>b - a * 100\<bar> \<le> (a * 100) / 2 ^ 53"
    using to_double_mid by blast
  have t0: "tot \<noteq> 0" using assms(1,2) by simp
  have "percentage n tot = Num b"
    using t0 a(1) b(1) by (simp add: num_div_def x_def)
  with a b show ?thesis unfolding x_def by blast
qed

lemma percentage_zero: "0 < tot \<Longrightarrow> percentage 0 tot = Num 0"
  by (simp add: num_div_def)

lemma reported_percentage_zero: "0 < tot \<Longrightarrow> reported_percentage 0 tot = Num 0"
  by (simp add: percentage_zero)

lemma significant_iff:
  assumes "0 < tot" and "n \<le> tot" and "tot < 2 ^ 51"
  shows "num_gt (percentage n tot) (1 / 2) \<longleftrightarrow> tot < 200 * n"
proof (cases "n = 0")
  case True
  then show ?thesis using assms(1) by (simp add: percentage_zero)
next
  case False
  then have n0: "0 < n" by simp
  define x where "x = real n / real tot"
  obtain a b where a: "\<bar>a - x\<bar> \<le> x / 2 ^ 53"
    and pb: "percentage n tot = Num b" and tb: "to_double (a * 100) = Num b"
    and b: "\<bar>b - a * 100\<bar> \<le> (a * 100) / 2 ^ 53"
    using percentage_value[OF n0 assms(2,3)] unfolding x_def by blast
  have x: "1 / 2 ^ 51 \<le> x" "x \<le> 1" using ratio_bounds[OF n0 assms(2,3)] by (auto simp: x_def)
  have t0: "0 < real tot" using assms(1) by simp
  have t51: "real tot < 2 ^ 51" using assms(3)
    by (metis of_nat_less_iff of_nat_numeral of_nat_power)
  show ?thesis
  proof (cases "tot < 200 * n")
    case True
    then have "tot + 1 \<le> 200 * n" by simp
    then have "real (tot + 1) \<le> real (200 * n)" by (simp only: of_nat_le_iff)
    then have "real tot + 1 \<le> 200 * real n" by simp
    then have "(real tot + 1) / real tot \<le> 200 * real n / real tot"
      using t0 by (simp add: divide_right_mono)
    then have x1: "1 + 1 / real tot \<le> 200 * x" using t0 by (simp add: x_def field_simps)
    have "1 / 2 ^ 51 < 1 / real tot" using t0 t51 by (simp add: field_simps)
    then have xl: "1 + 1 / 2 ^ 51 \<le> 200 * x" using x1 by linarith
    have "1 / 2 < b" using a b xl by (rule threshold_up)
    then show ?thesis using True pb by simp
  next
    case False
    then have "200 * n \<le> tot" by simp
    then have "real (200 * n) \<le> real tot" by (simp only: of_nat_le_iff)
    then have "200 * real n \<le> real tot" by simp
    then have xu: "x \<le> 1 / 200" using t0 by (simp add: x_def field_simps)
    have "(2::real) powi (- 1022) \<le> 1 / 2 ^ 60" by (simp add: power_int_minus)
    moreover have "1 / 2 ^ 60 \<le> a * 100" using chain_range(1)[OF a b x] .
    ultimately have lo: "2 powi (- 1022) \<le> a * 100" by linarith
    have hi: "a * 100 \<le> 1 / 2 + 1 / 2 ^ 54" using a xu by (rule threshold_down)
    obtain y where "to_double (a * 100) = Num y" "y \<le> 1 / 2"
      using to_double_le_half[OF lo hi] by blast
    then have "b \<le> 1 / 2" using tb by simp
    then show ?thesis using False pb by simp
  qed
qed

lemma reported_percentage_value:
  assumes "0 < tot" and "n \<le> tot" and "tot < 2 ^ 51"
  shows "\<exists>K q. reported_percentage n tot = Num q \<and> to_double (real_of_int K / 100) = Num q \<and>
           \<bar>real_of_int K - 10000 * (real n / real tot)\<bar> \<le> 1 / 2 + 1 / 10 ^ 11 \<and>
           \<bar>q - real n / real tot * 100\<bar> \<le> 1 / 200 + 1 / 10 ^ 12"
proof (cases "n = 0")
  case True
  have "reported_percentage n tot = Num 0" using True assms(1) by (simp add: reported_percentage_zero)
  then show ?thesis using True by (intro exI[of _ 0] exI[of _ "0::real"]) simp
next
  case False
  then have n0: "0 < n" by simp
  define x where "x = real n / real tot"
  obtain a b where a: "\<bar>a - x\<bar> \<le> x / 2 ^ 53"
    and pb: "percentage n tot = Num b"
    and b: "\<bar>b - a * 100\<bar> \<le> (a * 100) / 2 ^ 53"
    using percentage_value[OF n0 assms(2,3)] unfolding x_def by blast
  have x: "1 / 2 ^ 51 \<le> x" "x \<le> 1" using ratio_bounds[OF n0 assms(2,3)] by (auto simp: x_def)
  have x0: "0 \<le> x" by (simp add: x_def)
  have "1 / 2 ^ 60 \<le> b * 100" "b * 100 \<le> 2 ^ 20"
    using chain_range(3,4)[OF a b x] by auto
  then obtain c where c: "to_double (b * 100) = Num c" "\<bar>c - b * 100\<bar> \<le> (b * 100) / 2 ^ 53"
    using to_double_mid by blast
  define K where "K = \<lfloor>c + 1 / 2\<rfloor>"
  have rep: "reported_percentage n tot = to_double (real_of_int K / 100)"
    by (simp add: pb c(1) K_def)
  have cx: "\<bar>c - 10000 * x\<bar> \<le> 40100 / 2 ^ 53" and c0: "0 \<le> c"
    using chain_bound[OF a b c(2) x0 x(2)] by auto
  have Kx: "\<bar>real_of_int K - 10000 * x\<bar> \<le> 1 / 2 + 1 / 10 ^ 11"
    and K0: "0 \<le> K" and K1: "K \<le> 10000"
    using rounded_bound[OF cx c0 x(2)] unfolding K_def by auto
  show ?thesis
  proof (cases "K = 0")
    case True
    have r0: "reported_percentage n tot = Num 0" using rep True by simp
    have "\<bar>0 - x * 100\<bar> \<le> 1 / 200 + 1 / 10 ^ 12"
      using reported_bound[OF Kx _ K0 K1, of 0] True by simp
    then show ?thesis using Kx r0 True unfolding x_def
      by (intro exI[of _ 0] exI[of _ "0::real"]) simp
  next
    case False
    then have "1 \<le> K" using K0 by simp
    then have k1: "1 \<le> real_of_int K" by linarith
    have k2: "real_of_int K \<le> 10000" using K1 by linarith
    have "1 / 2 ^ 60 \<le> real_of_int K / 100" "real_of_int K / 100 \<le> 2 ^ 20"
      using k1 k2 by simp_all
    then obtain q where q: "to_double (real_of_int K / 100) = Num q"
      "\<bar>q - real_of_int K / 100\<bar> \<le> (real_of_int K / 100) / 2 ^ 53"
      using to_double_mid by blast
    have "\<bar>q - x * 100\<bar> \<le> 1 / 200 + 1 / 10 ^ 12"
      using Kx q(2) K0 K1 by (rule reported_bound)
    then show ?thesis using rep q(1) Kx unfolding x_def
      by (intro exI[of _ K] exI[of _ q]) simp
  qed
qed
text \<open>The doubles computed for 504 differing pixels out of 100000.\<close>

lemma to_double_half: "to_double (1 / 2) = Num (1 / 2)"
proof -
  have "to_double (1 / 2) = Num (of_int (2 ^ 52) * 2 powi (- 1 - 52))"
    by (rule to_double_eval) (simp_all add: power_int_minus)
  then show ?thesis by (simp add: power_int_minus)
qed

lemma double_504_of_100000:
  "percentage 504 100000 = Num (of_int 4539628424389460 * 2 powi (- 1 - 52))"
  "num_times (percentage 504 100000) 100 = Num (of_int 7093169413108531 * 2 powi (5 - 52))"
proof -
  have a: "to_double (504 / 100000) = Num (of_int 5810724383218509 * 2 powi (- 8 - 52))"
    by (rule to_double_eval) (simp_all add: power_int_minus)
  have b: "to_double (of_int 5810724383218509 * 2 powi (- 8 - 52) * 100)
             = Num (of_int 4539628424389460 * 2 powi (- 1 - 52))"
    by (rule to_double_eval) (simp_all add: power_int_minus)
  have c: "to_double (of_int 4539628424389460 * 2 powi (- 1 - 52) * 100)
             = Num (of_int 7093169413108531 * 2 powi (5 - 52))"
    by (rule to_double_eval) (simp_all add: power_int_minus)
  show p: "percentage 504 100000 = Num (of_int 4539628424389460 * 2 powi (- 1 - 52))"
    using a b by (simp add: num_div_def)
  show "num_times (percentage 504 100000) 100 = Num (of_int 7093169413108531 * 2 powi (5 - 52))"
    unfolding p using c by simp
qed

subsection \<open>The pixel diff\<close>

lemma compareImages_same_size:
  assumes "existsSync fs beforePath" and "existsSync fs afterPath"
    and "read_png fs beforePath = Inr img1" and "read_png fs afterPath = Inr img2"
    and "png_width img1 = png_width img2" and "png_height img1 = png_height img2"
    and "pixelmatch fs (png_data img1) (png_data img2) (png_width img1) (png_height img1)
           = Inr (n, d)"
    and "write_png fs (path_join fs outputDir ''diff.png'')
           \<lparr>png_width = png_width img1, png_height = png_height img1, png_data = d\<rparr> = None"
  shows "fst (compareImages fs beforePath afterPath outputDir) =
           Some \<lparr>diffPercent = reported_percentage n (png_width img1 * png_height img1),
                  diffPixels = int n,
                  totalPixels = png_width img1 * png_height img1,
                  diffImagePath = Some (path_join fs outputDir ''diff.png''),
                  hasSignificantChange =
                    num_gt (percentage n (png_width img1 * png_height img1)) (1 / 2)\<rparr>"
  using assms by (simp add: compareImages_def image_stats_def Let_def)

lemma identical_images_zero_percent:
  assumes "existsSync fs p" and "read_png fs p = Inr img"
    and "pixelmatch fs (png_data img) (png_data img) (png_width img) (png_height img) = Inr (0, d)"
    and "write_png fs (path_join fs out ''diff.png'')
           \<lparr>png_width = png_width img, png_height = png_height img, png_data = d\<rparr> = None"
    and "0 < png_width img * png_height img"
  shows "\<exists>r. fst (compareImages fs p p out) = Some r \<and> diffPercent r = Num 0 \<and>
           \<not> hasSignificantChange r"
  using assms by (simp add: compareImages_def image_stats_def Let_def num_div_def)
text \<open>
  C8 (as stated) fails. The threshold is compared with the percentage before it is rounded
  to two decimals, so the result can be marked significant although the percentage it
  reports does not exceed 0.5: for 504 differing pixels out of 100000 the reported
  percentage is 0.5 and the significant flag is set.
\<close>

theorem C8_reported_half_percent_is_significant:
  "\<exists>r. fst (compareImages (example_files (example_png 1000 100) (example_png 1000 100) 504)
               ''out/page-before.png'' ''out/page.png'' ''out'') = Some r \<and>
        diffPixels r = 504 \<and> totalPixels r = 100000 \<and>
        diffPercent r = Num (1 / 2) \<and> hasSignificantChange r \<and>
        \<not> num_gt (diffPercent r) (1 / 2)"
proof -
  let ?fs = "example_files (example_png 1000 100) (example_png 1000 100) 504"
  have res: "fst (compareImages ?fs ''out/page-before.png'' ''out/page.png'' ''out'') =
               Some \<lparr>diffPercent = reported_percentage 504 100000, diffPixels = 504,
                      totalPixels = 100000, diffImagePath = Some ''out/diff.png'',
                      hasSignificantChange = num_gt (percentage 504 100000) (1 / 2)\<rparr>"
    by (simp add: compareImages_def image_stats_def example_files_def example_png_def Let_def)
  have k: "\<lfloor>real_of_int 7093169413108531 * 2 powi (5 - 52) + 1 / 2\<rfloor> = 50"
    by (rule floor_unique) (simp_all add: power_int_minus)
  have rep: "reported_percentage 504 100000 = Num (1 / 2)"
    unfolding double_504_of_100000(2) using k to_double_half by simp
  have sig: "num_gt (percentage 504 100000) (1 / 2)"
    unfolding double_504_of_100000(1) by (simp add: power_int_minus)
  show ?thesis unfolding res using rep sig by simp
qed

text \<open>
  C8 (amended). For two screenshots of the same size, with at least one and fewer than
  \<open>2 ^ 51\<close> pixels, of which \<open>pixelmatch\<close> counts \<open>n\<close> as differing, the result exists
  once the visualisation is written. With \<open>p = n / total * 100\<close>: the reported percentage
  is the double nearest to \<open>K / 100\<close> for an integer \<open>K\<close> that is within
  \<open>1 / 2 + 10 ^ - 11\<close> of \<open>p * 100\<close>, so it is within \<open>0.005 + 10 ^ - 12\<close> of \<open>p\<close>; and the
  result is marked significant exactly when \<open>p\<close>, not the reported percentage, exceeds
  0.5, that is when \<open>200 * n > total\<close>. Every operation is the one on doubles.
\<close>

theorem C8_percentage_and_threshold_in_doubles:
  assumes "existsSync fs beforePath" and "existsSync fs afterPath"
    and "read_png fs beforePath = Inr img1" and "read_png fs afterPath = Inr img2"
    and "png_width img1 = png_width img2" and "png_height img1 = png_height img2"
    and "pixelmatch fs (png_data img1) (png_data img2) (png_width img1) (png_height img1)
           = Inr (n, d)"
    and "write_png fs (path_join fs outputDir ''diff.png'')
           \<lparr>png_width = png_width img1, png_height = png_height img1, png_data = d\<rparr> = None"
    and "tot = png_width img1 * png_height img1" and "0 < tot" and "n \<le> tot"
    and "tot < 2 ^ 51"
    and "p = real n / real tot * 100"
  shows "\<exists>r K q. fst (compareImages fs beforePath afterPath outputDir) = Some r \<and>
           diffPixels r = int n \<and> totalPixels r = tot \<and>
           diffPercent r = Num q \<and> to_double (real_of_int K / 100) = Num q \<and>
           \<bar>real_of_int K - p * 100\<bar> \<le> 1 / 2 + 1 / 10 ^ 11 \<and>
           \<bar>q - p\<bar> \<le> 1 / 200 + 1 / 10 ^ 12 \<and>
           (hasSignificantChange r \<longleftrightarrow> 1 / 2 < p) \<and>
           (hasSignificantChange r \<longleftrightarrow> tot < 200 * n)"
proof -
  let ?r = "\<lparr>diffPercent = reported_percentage n tot, diffPixels = int n, totalPixels = tot,
             diffImagePath = Some (path_join fs outputDir ''diff.png''),
             hasSignificantChange = num_gt (percentage n tot) (1 / 2)\<rparr>"
  have res: "fst (compareImages fs beforePath afterPath outputDir) = Some ?r"
    unfolding assms(9) using assms(1-8) by (rule compareImages_same_size)
  obtain K q where q: "reported_percentage n tot = Num q"
    and Kq: "to_double (real_of_int K / 100) = Num q"
    and K: "\<bar>real_of_int K - 10000 * (real n / real tot)\<bar> \<le> 1 / 2 + 1 / 10 ^ 11"
    and qp: "\<bar>q - real n / real tot * 100\<bar> \<le> 1 / 200 + 1 / 10 ^ 12"
    using reported_percentage_value[OF assms(10-12)] by blast
  have K': "\<bar>real_of_int K - p * 100\<bar> \<le> 1 / 2 + 1 / 10 ^ 11"
    using K unfolding assms(13) by (simp add: mult.commute)
  have sig: "num_gt (percentage n tot) (1 / 2) \<longleftrightarrow> tot < 200 * n"
    using assms(10-12) by (rule significant_iff)
  have thr: "(1 / 2 < p) \<longleftrightarrow> tot < 200 * n"
  proof -
    have pos: "0 < real tot" using assms(10) by simp
    have "(1 / 2 < p) \<longleftrightarrow> real tot < 200 * real n"
      unfolding assms(13) using pos by (simp add: field_simps)
    also have "\<dots> \<longleftrightarrow> real tot < real (200 * n)" by simp
    also have "\<dots> \<longleftrightarrow> tot < 200 * n" by (simp only: of_nat_less_iff)
    finally show ?thesis .
  qed
  show ?thesis
    using res q Kq K' qp sig thr unfolding assms(13)
    by (intro exI[of _ ?r] exI[of _ K] exI[of _ q]) simp
qed

theorem C8_percentage_and_threshold_in_doubles_witness:
  "\<exists>r q. fst (compareImages (example_files (example_png 1000 100) (example_png 1000 100) 1234)
                ''out/page-before.png'' ''out/page.png'' ''out'') = Some r \<and>
           diffPixels r = 1234 \<and> totalPixels r = 100000 \<and>
           diffPercent r = Num q \<and> to_double (123 / 100) = Num q \<and>
           \<bar>q - 1234 / 1000\<bar> \<le> 1 / 200 + 1 / 10 ^ 12 \<and> hasSignificantChange r"
proof -
  let ?fs = "example_files (example_png 1000 100) (example_png 1000 100) 1234"
  have e1: "existsSync ?fs ''out/page-before.png''" and e2: "existsSync ?fs ''out/page.png''"
    by (simp_all add: example_files_def)
  have r1: "read_png ?fs ''out/page-before.png'' = Inr (example_png 1000 100)"
    and r2: "read_png ?fs ''out/page.png'' = Inr (example_png 1000 100)"
    by (simp_all add: example_files_def)
  have pm: "pixelmatch ?fs (png_data (example_png 1000 100)) (png_data (example_png 1000 100))
              (png_width (example_png 1000 100)) (png_height (example_png 1000 100)) = Inr (1234, [])"
    by (simp add: example_files_def)
  have wr: "write_png ?fs (path_join ?fs ''out'' ''diff.png'')
              \<lparr>png_width = png_width (example_png 1000 100),
                png_height = png_height (example_png 1000 100), png_data = []\<rparr> = None"
    by (simp add: example_files_def)
  have tot: "(100000::nat) = png_width (example_png 1000 100) * png_height (example_png 1000 100)"
    by (simp add: example_png_def)
  have pos: "0 < (100000::nat)" and le: "(1234::nat) \<le> 100000" and small: "(100000::nat) < 2 ^ 51"
    by simp_all
  have pdef: "(1234 / 1000 :: real) = real 1234 / real 100000 * 100" by simp
  from C8_percentage_and_threshold_in_doubles[OF e1 e2 r1 r2 refl refl pm wr tot pos le small pdef]
  obtain r K q where r: "fst (compareImages ?fs ''out/page-before.png'' ''out/page.png'' ''out'') = Some r"
    "diffPixels r = int 1234" "totalPixels r = 100000" "diffPercent r = Num q"
    "to_double (real_of_int K / 100) = Num q"
    and K: "\<bar>real_of_int K - 1234 / 1000 * 100\<bar> \<le> 1 / 2 + 1 / 10 ^ 11"
    and q: "\<bar>q - 1234 / 1000\<bar> \<le> 1 / 200 + 1 / 10 ^ 12"
    and s: "hasSignificantChange r \<longleftrightarrow> (100000::nat) < 200 * 1234"
    by blast
  have e: "(1::real) / 2 + 1 / 10 ^ 11 \<le> 55 / 100" by simp
  have v: "(1234 / 1000 * 100 :: real) = 1234 / 10" by simp
  have K': "\<bar>real_of_int K - 1234 / 10\<bar> \<le> 55 / 100"
    using K e unfolding v by (rule order_trans)
  have "real_of_int K < 124" using K' by linarith
  moreover have "122 < real_of_int K" using K' by linarith
  ultimately have "K < 124" and "122 < K" by simp_all
  then have "K = 123" by simp
  then show ?thesis using r q s by (intro exI[of _ r] exI[of _ q]) simp
qed

text \<open>
  The reported percentage is not always the nearest hundredth of \<open>n / total * 100\<close>: for 23
  differing pixels out of 160 that quotient is 14.375, but the doubles computed are
  14.374999999999998 and 1437.4999999999998, and the percentage reported is 14.37.
\<close>

lemma tie_is_reported_below:
  "reported_percentage 23 160 = to_double (1437 / 100)"
  "to_double (1437 / 100) = Num (of_int 8089590830664253 * 2 powi (3 - 52))"
  "math_round (Num (23 / 160 * 100 * 100)) = Num 1438"
proof -
  have a: "to_double (23 / 160) = Num (of_int 5179139571476070 * 2 powi (- 3 - 52))"
    by (rule to_double_eval) (simp_all add: power_int_minus)
  have b: "to_double (of_int 5179139571476070 * 2 powi (- 3 - 52) * 100)
             = Num (of_int 8092405580431359 * 2 powi (3 - 52))"
    by (rule to_double_eval) (simp_all add: power_int_minus)
  have c: "to_double (of_int 8092405580431359 * 2 powi (3 - 52) * 100)
             = Num (of_int 6322191859711999 * 2 powi (10 - 52))"
    by (rule to_double_eval) (simp_all add: power_int_minus)
  have k: "\<lfloor>real_of_int 6322191859711999 * 2 powi (10 - 52) + 1 / 2\<rfloor> = 1437"
    by (rule floor_unique) (simp_all add: power_int_minus)
  have p: "percentage 23 160 = Num (of_int 8092405580431359 * 2 powi (3 - 52))"
    using a b by (simp add: num_div_def)
  show "reported_percentage 23 160 = to_double (1437 / 100)"
    unfolding p using c k by simp
  show "to_double (1437 / 100) = Num (of_int 8089590830664253 * 2 powi (3 - 52))"
    by (rule to_double_eval) (simp_all add: power_int_minus)
  have "\<lfloor>(23 / 160 * 100 * 100 + 1 / 2 :: real)\<rfloor> = 1438"
    by (rule floor_unique) simp_all
  then show "math_round (Num (23 / 160 * 100 * 100)) = Num 1438" by simp
qed


section \<open>Properties of the session manager\<close>

lemma io_call_run: "io_call w c (s, tr) = (case outcome w c of Some f \<Rightarrow> Inl f | None \<Rightarrow> Inr (), s, tr @ [c])"
  by (simp add: io_call_def)

lemma io_attempt_run: "io_attempt w c (s, tr) = (Inr (), s, tr @ [c])"
  by (simp add: io_attempt_def io_catch_def io_call_def io_return_def split: option.splits)

lemma io_get_run: "io_get (s, tr) = (Inr s, s, tr)" by (simp add: io_get_def)
lemma io_update_run: "io_update g (s, tr) = (Inr (), g s, tr)" by (simp add: io_update_def)
lemma io_return_run: "io_return x st = (Inr x, st)" by (simp add: io_return_def)

lemma navigations_append: "navigations (a @ b) = navigations a @ navigations b"
  by (simp add: navigations_def)

lemma navigations_simps:
  "navigations [] = []"
  "navigations (c # cs) = goto_url c @ navigations cs"
  by (simp_all add: navigations_def)

lemma connect_port_run:
  assumes "connect_port w targetUrl port (s, tr) = (r, s', tr')"
  shows "s' = s \<and> (\<exists>found. r = Inr found) \<and> (\<exists>new. tr' = tr @ new \<and>
           (\<forall>u \<in> set (navigations new). targetUrl = Some u \<and> u \<noteq> []))"
  using assms
  by (auto simp: connect_port_def io_catch_def io_bind_def io_call_run io_attempt_run io_return_run truthy_def
       navigations_simps navigations_append goto_url_def
      split: prod.splits sum.splits option.splits list.splits if_splits)


lemma tryConnectCDP_from_run:
  assumes "tryConnectCDP_from w targetUrl ports (s, tr) = (r, s', tr')"
  shows "s' = s \<and> (\<exists>found. r = Inr found) \<and> (\<exists>new. tr' = tr @ new \<and>
           (\<forall>u \<in> set (navigations new). targetUrl = Some u \<and> u \<noteq> []))"
  using assms
proof (induction ports arbitrary: tr r s' tr')
  case Nil
  then show ?case by (auto simp: io_return_run navigations_simps)
next
  case (Cons port ports)
  from Cons.prems obtain found s1 tr1 where
    c: "connect_port w targetUrl port (s, tr) = (Inr found, s1, tr1)"
    and rest: "(case found of Some bp \<Rightarrow> io_return (Some bp)
                | None \<Rightarrow> tryConnectCDP_from w targetUrl ports) (s1, tr1) = (r, s', tr')"
    using connect_port_run[of w targetUrl port s tr]
    by (auto simp: io_bind_def split: prod.splits sum.splits)
  from connect_port_run[OF c] obtain new1 where
    s1: "s1 = s" and tr1: "tr1 = tr @ new1"
    and g1: "\<forall>u \<in> set (navigations new1). targetUrl = Some u \<and> u \<noteq> []"
    by blast
  show ?case
  proof (cases found)
    case None
    with rest have "tryConnectCDP_from w targetUrl ports (s, tr1) = (r, s', tr')"
      using s1 by simp
    from Cons.IH[OF this] obtain new2 where
      "s' = s" "\<exists>found. r = Inr found" "tr' = tr1 @ new2"
      "\<forall>u \<in> set (navigations new2). targetUrl = Some u \<and> u \<noteq> []"
      by blast
    with tr1 g1 show ?thesis by (auto simp: navigations_append)
  next
    case (Some bp)
    with rest s1 tr1 g1 show ?thesis by (auto simp: io_return_run)
  qed
qed

lemma attach_remote_run:
  assumes "attach_remote w url (s, tr) = (r, s', tr')" and "session_ok s"
  shows "\<exists>new. tr' = tr @ new \<and>
           (\<forall>u \<in> set (navigations new).
              url = Some u \<and> u \<noteq> [] \<and> currentUrl s \<noteq> Some u \<and> \<not> isRemote s) \<and>
           ((r = Inr None \<and> s' = s) \<or>
            (\<exists>b p. r = Inr (Some p) \<and> s_browser s = None \<and>
               s' = s\<lparr>s_browser := Some b, s_page := Some p, s_context := Some (PageContext p),
                       currentUrl := Some (page_url w p), isRemote := True\<rparr>)) \<and>
           (s_browser s \<noteq> None \<longrightarrow> new = [])"
proof (cases "s_browser s = None \<and> env_USE_CDP w")
  case False
  with assms show ?thesis
    by (auto simp: attach_remote_def io_bind_def io_get_run io_return_run navigations_simps)
next
  case True
  obtain r1 s1 tr1 where t: "tryConnectCDP_from w url CDP_PORTS (s, tr) = (r1, s1, tr1)"
    by (metis prod_cases3)
  from tryConnectCDP_from_run[OF t] obtain found new where
    f: "s1 = s" "r1 = Inr found" "tr1 = tr @ new"
      "\<forall>u \<in> set (navigations new). url = Some u \<and> u \<noteq> []"
    by blast
  have pre: "currentUrl s = None" "\<not> isRemote s"
    using True assms(2) by (auto simp: session_ok_def)
  have run: "attach_remote w url (s, tr) =
               (case found of
                  Some (b, p) \<Rightarrow>
                    (Inr (Some p),
                     s\<lparr>s_browser := Some b, s_page := Some p, s_context := Some (PageContext p),
                       currentUrl := Some (page_url w p), isRemote := True\<rparr>, tr @ new)
                | None \<Rightarrow> (Inr None, s, tr @ new))"
    using True t f(1,2,3)
    by (simp add: attach_remote_def tryConnectCDP_def io_bind_def io_get_run io_return_run
          io_update_run split: option.splits prod.splits)
  show ?thesis
  proof (cases found)
    case None
    with run assms(1) f(4) pre True show ?thesis by auto
  next
    case (Some bp)
    obtain b p where "bp = (b, p)" by (cases bp)
    with Some run assms(1) f(4) pre True show ?thesis by auto
  qed
qed


lemma ensure_browser_run:
  assumes "ensure_browser w (s, tr) = (r, s', tr')"
  shows "\<exists>new. tr' = tr @ new \<and> navigations new = [] \<and> currentUrl s' = currentUrl s \<and>
           s_context s' = s_context s \<and> s_page s' = s_page s \<and>
           (isRemote s' \<longrightarrow> isRemote s) \<and>
           (s_browser s \<noteq> None \<longrightarrow> r = Inr () \<and> s' = s \<and> new = [])"
  using assms
  by (auto simp: ensure_browser_def io_bind_def io_get_run io_update_run io_return_run io_call_run
        navigations_simps goto_url_def split: option.splits if_splits)

lemma ensure_context_run:
  assumes "ensure_context w (s, tr) = (r, s', tr')"
  shows "\<exists>new. tr' = tr @ new \<and> navigations new = [] \<and> currentUrl s' = currentUrl s \<and>
           s_page s' = s_page s \<and> isRemote s' = isRemote s \<and>
           (s_context s \<noteq> None \<longrightarrow> r = Inr () \<and> s' = s \<and> new = [])"
  using assms
  by (auto simp: ensure_context_def io_bind_def io_get_run io_update_run io_return_run io_call_run
        navigations_simps goto_url_def split: option.splits if_splits)

lemma ensure_page_run:
  assumes "ensure_page w (s, tr) = (r, s', tr')"
  shows "\<exists>new. tr' = tr @ new \<and> navigations new = [] \<and> currentUrl s' = currentUrl s \<and>
           isRemote s' = isRemote s \<and>
           (\<forall>p. s_page s = Some p \<longrightarrow> r = Inr p \<and> s' = s \<and> new = [])"
  using assms
  by (auto simp: ensure_page_def io_bind_def io_get_run io_update_run io_return_run io_call_run
        navigations_simps goto_url_def split: option.splits if_splits)

lemma navigate_if_needed_run:
  assumes "navigate_if_needed w url p (s, tr) = (r, s', tr')"
  shows "\<exists>new. tr' = tr @ new \<and>
           (\<forall>u \<in> set (navigations new).
              url = Some u \<and> u \<noteq> [] \<and> currentUrl s \<noteq> Some u \<and> \<not> isRemote s) \<and>
           (isRemote s \<longrightarrow> new = [] \<and> r = Inr () \<and> s' = s\<lparr>currentUrl := Some (page_url w p)\<rparr>)"
  using assms
  by (auto simp: navigate_if_needed_def io_bind_def io_get_run io_update_run io_return_run
        io_call_run io_attempt_run navigations_simps goto_url_def truthy_def
      split: option.splits if_splits)

lemma acquire_local_run:
  assumes "acquire_local w url (s, tr) = (r, s', tr')" and "session_ok s"
  shows "\<exists>new. tr' = tr @ new \<and>
           (\<forall>u \<in> set (navigations new).
              url = Some u \<and> u \<noteq> [] \<and> currentUrl s \<noteq> Some u \<and> \<not> isRemote s) \<and>
           (isRemote s \<longrightarrow> new = [] \<and>
              (\<exists>p. s_page s = Some p \<and> r = Inr p \<and> s' = s\<lparr>currentUrl := Some (page_url w p)\<rparr>))"
proof -
  obtain r1 s1 tr1 where b: "ensure_browser w (s, tr) = (r1, s1, tr1)" by (metis prod_cases3)
  from ensure_browser_run[OF b] obtain n1 where
    b1: "tr1 = tr @ n1" "navigations n1 = []" "currentUrl s1 = currentUrl s"
      "s_context s1 = s_context s" "s_page s1 = s_page s" "isRemote s1 \<longrightarrow> isRemote s"
      "s_browser s \<noteq> None \<longrightarrow> r1 = Inr () \<and> s1 = s \<and> n1 = []"
    by blast
  obtain r2 s2 tr2 where c: "ensure_context w (s1, tr1) = (r2, s2, tr2)" by (metis prod_cases3)
  from ensure_context_run[OF c] obtain n2 where
    c1: "tr2 = tr1 @ n2" "navigations n2 = []" "currentUrl s2 = currentUrl s1"
      "s_page s2 = s_page s1" "isRemote s2 = isRemote s1"
      "s_context s1 \<noteq> None \<longrightarrow> r2 = Inr () \<and> s2 = s1 \<and> n2 = []"
    by blast
  obtain r3 s3 tr3 where p: "ensure_page w (s2, tr2) = (r3, s3, tr3)" by (metis prod_cases3)
  from ensure_page_run[OF p] obtain n3 where
    p1: "tr3 = tr2 @ n3" "navigations n3 = []" "currentUrl s3 = currentUrl s2"
      "isRemote s3 = isRemote s2"
      "\<forall>q. s_page s2 = Some q \<longrightarrow> r3 = Inr q \<and> s3 = s2 \<and> n3 = []"
    by blast
  have remote: "isRemote s \<Longrightarrow> s_browser s \<noteq> None \<and> s_context s \<noteq> None \<and> s_page s \<noteq> None"
    using assms(2) by (simp add: session_ok_def)
  show ?thesis
  proof (cases r1)
    case (Inl f)
    with b assms(1) have "r = Inl f" "tr' = tr1"
      by (auto simp: acquire_local_def io_bind_def)
    with b1 Inl remote show ?thesis by auto
  next
    case r1ok: (Inr u1)
    show ?thesis
    proof (cases r2)
      case (Inl f)
      with b c r1ok assms(1) have "r = Inl f" "tr' = tr2"
        by (auto simp: acquire_local_def io_bind_def)
      with b1 c1 Inl remote show ?thesis by (auto simp: navigations_append)
    next
      case r2ok: (Inr u2)
      show ?thesis
      proof (cases r3)
        case (Inl f)
        with b c p r1ok r2ok assms(1) have "r = Inl f" "tr' = tr3"
          by (auto simp: acquire_local_def io_bind_def)
        with b1 c1 p1 Inl remote show ?thesis by (auto simp: navigations_append)
      next
        case r3ok: (Inr q)
        obtain r4 s4 tr4 where n: "navigate_if_needed w url q (s3, tr3) = (r4, s4, tr4)"
          by (metis prod_cases3)
        from navigate_if_needed_run[OF n] obtain n4 where
          n4: "tr4 = tr3 @ n4"
            "\<forall>u \<in> set (navigations n4).
               url = Some u \<and> u \<noteq> [] \<and> currentUrl s3 \<noteq> Some u \<and> \<not> isRemote s3"
            "isRemote s3 \<longrightarrow> n4 = [] \<and> r4 = Inr () \<and> s4 = s3\<lparr>currentUrl := Some (page_url w q)\<rparr>"
          by blast
        have fin: "r = (case r4 of Inl f \<Rightarrow> Inl f | Inr _ \<Rightarrow> Inr q)" "s' = s4" "tr' = tr4"
          using b c p n r1ok r2ok r3ok assms(1)
          by (auto simp: acquire_local_def io_bind_def io_return_run split: sum.splits)
        have tr: "tr' = tr @ (n1 @ n2 @ n3 @ n4)"
          using fin(3) n4(1) p1(1) c1(1) b1(1) by simp
        have nav: "navigations (n1 @ n2 @ n3 @ n4) = navigations n4"
          using b1(2) c1(2) p1(2) by (simp add: navigations_append)
        have urls: "currentUrl s3 = currentUrl s" using p1(3) c1(3) b1(3) by simp
        have rem: "isRemote s3 \<longrightarrow> isRemote s" using p1(4) c1(5) b1(6) by simp
        have part1: "\<forall>u \<in> set (navigations (n1 @ n2 @ n3 @ n4)).
              url = Some u \<and> u \<noteq> [] \<and> currentUrl s \<noteq> Some u \<and> \<not> isRemote s"
        proof
          fix u assume "u \<in> set (navigations (n1 @ n2 @ n3 @ n4))"
          then have u: "u \<in> set (navigations n4)" using nav by simp
          then have "\<not> isRemote s"
          proof -
            from u n4(2) have "url = Some u" by blast
            show ?thesis
            proof
              assume r: "isRemote s"
              from remote[OF r] b1(7) have "s1 = s" by simp
              with remote[OF r] c1(6) have "s2 = s" by simp
              with remote[OF r] p1(5) have "s3 = s" by auto
              with r n4(3) have "n4 = []" by simp
              with u show False by (simp add: navigations_simps)
            qed
          qed
          with u n4(2) urls show "url = Some u \<and> u \<noteq> [] \<and> currentUrl s \<noteq> Some u \<and> \<not> isRemote s"
            by auto
        qed
        have part2: "isRemote s \<longrightarrow> n1 @ n2 @ n3 @ n4 = [] \<and>
              (\<exists>p. s_page s = Some p \<and> r = Inr p \<and> s' = s\<lparr>currentUrl := Some (page_url w p)\<rparr>)"
        proof
          assume r: "isRemote s"
          from remote[OF r] b1(7) have e1: "s1 = s" "n1 = []" by simp_all
          with remote[OF r] c1(6) have e2: "s2 = s" "n2 = []" by simp_all
          from remote[OF r] obtain pp where pp: "s_page s = Some pp" by auto
          with e2 p1(5) have e3: "r3 = Inr pp" "s3 = s" "n3 = []" by auto
          with r3ok have q: "q = pp" by simp
          from e3 r n4(3) have e4: "n4 = []" "r4 = Inr ()" "s4 = s\<lparr>currentUrl := Some (page_url w q)\<rparr>"
            by simp_all
          show "n1 @ n2 @ n3 @ n4 = [] \<and>
              (\<exists>p. s_page s = Some p \<and> r = Inr p \<and> s' = s\<lparr>currentUrl := Some (page_url w p)\<rparr>)"
            using e1 e2 e3 e4 pp q fin by simp
        qed
        show ?thesis using tr part1 part2 by blast
      qed
    qed
  qed
qed

text \<open>The session invariant holds at the start and is kept by the session manager.\<close>

lemma session_ok_initial: "session_ok initial_session"
  by (simp add: session_ok_def initial_session_def)

text \<open>
  C9. In any session state (a remote session has its browser, context and page; a URL is
  tracked only while there is a browser), the calls that \<open>getPage\<close> adds to the trace
  contain a navigation only to the URL the caller supplied, and only when that URL is
  non-empty, differs from the URL tracked when the call began, and the session was not
  remote-attached then. This includes the navigation that a first attachment to a
  debugging browser may make inside \<open>tryConnectCDP\<close>: it happens in a call that began
  without a browser. For a session that is remote-attached, \<open>getPage\<close> makes no call at
  all, returns the session's page and changes only the tracked URL, to the page's
  current URL.
\<close>

theorem C9_navigation_policy:
  assumes "session_ok s" and "getPage w url (s, tr) = (r, s', tr')"
  shows "\<exists>new. tr' = tr @ new \<and>
           (\<forall>u \<in> set (navigations new).
              url = Some u \<and> u \<noteq> [] \<and> currentUrl s \<noteq> Some u \<and> \<not> isRemote s) \<and>
           (isRemote s \<longrightarrow> new = [] \<and>
              (\<exists>p. s_page s = Some p \<and> r = Inr p \<and> s' = s\<lparr>currentUrl := Some (page_url w p)\<rparr>))"
proof -
  obtain r1 s1 tr1 where a: "attach_remote w url (s, tr) = (r1, s1, tr1)"
    by (metis prod_cases3)
  from attach_remote_run[OF a assms(1)] obtain new1 where
    n1: "tr1 = tr @ new1"
      "\<forall>u \<in> set (navigations new1). url = Some u \<and> u \<noteq> [] \<and> currentUrl s \<noteq> Some u \<and> \<not> isRemote s"
      "(r1 = Inr None \<and> s1 = s) \<or>
       (\<exists>b p. r1 = Inr (Some p) \<and> s_browser s = None \<and>
          s1 = s\<lparr>s_browser := Some b, s_page := Some p, s_context := Some (PageContext p),
                  currentUrl := Some (page_url w p), isRemote := True\<rparr>)"
      "s_browser s \<noteq> None \<longrightarrow> new1 = []"
    by blast
  have remote_new1: "isRemote s \<Longrightarrow> new1 = []"
    using n1(4) assms(1) by (simp add: session_ok_def)
  from n1(3) show ?thesis
  proof
    assume none: "r1 = Inr None \<and> s1 = s"
    have "getPage w url (s, tr) = acquire_local w url (s, tr1)"
      using a none by (simp add: getPage_def io_bind_def)
    with assms(2) have "acquire_local w url (s, tr1) = (r, s', tr')" by simp
    from acquire_local_run[OF this assms(1)] obtain new2 where
      n2: "tr' = tr1 @ new2"
        "\<forall>u \<in> set (navigations new2). url = Some u \<and> u \<noteq> [] \<and> currentUrl s \<noteq> Some u \<and> \<not> isRemote s"
        "isRemote s \<longrightarrow> new2 = [] \<and>
           (\<exists>p. s_page s = Some p \<and> r = Inr p \<and> s' = s\<lparr>currentUrl := Some (page_url w p)\<rparr>)"
      by blast
    have t: "tr' = tr @ (new1 @ new2)" using n1(1) n2(1) by simp
    have g: "\<forall>u \<in> set (navigations (new1 @ new2)).
               url = Some u \<and> u \<noteq> [] \<and> currentUrl s \<noteq> Some u \<and> \<not> isRemote s"
      using n1(2) n2(2) by (simp add: navigations_append ball_Un)
    have m: "isRemote s \<longrightarrow> new1 @ new2 = [] \<and>
           (\<exists>p. s_page s = Some p \<and> r = Inr p \<and> s' = s\<lparr>currentUrl := Some (page_url w p)\<rparr>)"
      using n2(3) remote_new1 by simp
    from t g m show ?thesis by blast
  next
    assume "\<exists>b p. r1 = Inr (Some p) \<and> s_browser s = None \<and>
          s1 = s\<lparr>s_browser := Some b, s_page := Some p, s_context := Some (PageContext p),
                  currentUrl := Some (page_url w p), isRemote := True\<rparr>"
    then obtain p where some: "r1 = Inr (Some p)" "s_browser s = None" by blast
    have "getPage w url (s, tr) = (Inr p, s1, tr1)"
      using a some(1) by (simp add: getPage_def io_bind_def io_return_run)
    with assms(2) have t: "tr' = tr @ new1" using n1(1) by simp
    have m: "\<not> isRemote s" using some(2) assms(1) by (auto simp: session_ok_def)
    from t n1(2) m show ?thesis by blast
  qed
qed


theorem C9_navigation_policy_witness:
  "session_ok initial_session \<and>
   getPage (example_world all_ok) (Some ''http://localhost:5173/'') (initial_session, []) =
     (Inr LocalPage,
      \<lparr>s_browser = Some LaunchedBrowser, s_context = Some LocalContext, s_page = Some LocalPage,
        currentUrl = Some ''http://localhost:5173/'', lastSnapshot = None, isRemote = False\<rparr>,
      [Launch True, NewContext, NewPage, PageRoute,
       PageGoto LocalPage ''http://localhost:5173/'' 30000,
       WaitForLoadState LocalPage ''networkidle'' 3000]) \<and>
   session_ok example_remote_session \<and>
   getPage (example_world all_ok) (Some ''http://localhost:5173/'') (example_remote_session, []) =
     (Inr (CdpPage 9222 0),
      example_remote_session\<lparr>currentUrl := Some ''http://localhost:5173/''\<rparr>, [])"
proof -
  let ?w = "example_world all_ok" and ?u = "''http://localhost:5173/''"
  let ?s1 = "\<lparr>s_browser = Some LaunchedBrowser, s_context = Some LocalContext,
              s_page = Some LocalPage, currentUrl = Some ?u, lastSnapshot = None,
              isRemote = False\<rparr>"
  let ?t1 = "[Launch True, NewContext, NewPage, PageRoute, PageGoto LocalPage ?u 30000,
              WaitForLoadState LocalPage ''networkidle'' 3000]"
  have ok1: "session_ok initial_session" by (rule session_ok_initial)
  have run1: "getPage ?w (Some ?u) (initial_session, []) = (Inr LocalPage, ?s1, ?t1)"
    by (simp add: getPage_def attach_remote_def acquire_local_def ensure_browser_def
          ensure_context_def ensure_page_def navigate_if_needed_def io_bind_def io_get_run
          io_update_run io_return_run io_call_run io_attempt_run truthy_def
          example_world_def all_ok_def initial_session_def)
  have ok2: "session_ok example_remote_session"
    by (simp add: session_ok_def example_remote_session_def)
  obtain r2 s2 t2 where run2:
    "getPage ?w (Some ?u) (example_remote_session, []) = (r2, s2, t2)"
    by (metis prod_cases3)
  have rem: "isRemote example_remote_session" "s_page example_remote_session = Some (CdpPage 9222 0)"
    by (simp_all add: example_remote_session_def)
  have pu: "page_url ?w (CdpPage 9222 0) = ?u" by (simp add: example_world_def)
  from C9_navigation_policy[OF ok2 run2] rem pu
  have "t2 = [] \<and> r2 = Inr (CdpPage 9222 0) \<and>
        s2 = example_remote_session\<lparr>currentUrl := Some ?u\<rparr>"
    by auto
  with ok1 run1 ok2 run2 show ?thesis
    using C9_navigation_policy[OF ok1 run1] by simp
qed

lemma ensure_browser_ok:
  assumes "ensure_browser w (s, tr) = (r, s', tr')" and "session_ok s"
  shows "session_ok s' \<and> ((\<exists>u. r = Inr u) \<longrightarrow> s_browser s' \<noteq> None)"
  using assms
  by (auto simp: ensure_browser_def io_bind_def io_get_run io_update_run io_return_run io_call_run
        session_ok_def split: option.splits if_splits)

lemma ensure_context_ok:
  assumes "ensure_context w (s, tr) = (r, s', tr')" and "session_ok s"
  shows "session_ok s' \<and> s_browser s' = s_browser s"
  using assms
  by (auto simp: ensure_context_def io_bind_def io_get_run io_update_run io_return_run io_call_run
        session_ok_def split: option.splits if_splits)

lemma ensure_page_ok:
  assumes "ensure_page w (s, tr) = (r, s', tr')" and "session_ok s"
  shows "session_ok s' \<and> s_browser s' = s_browser s"
  using assms
  by (auto simp: ensure_page_def io_bind_def io_get_run io_update_run io_return_run io_call_run
        session_ok_def split: option.splits if_splits)

lemma navigate_if_needed_ok:
  assumes "navigate_if_needed w url p (s, tr) = (r, s', tr')" and "session_ok s"
    and "s_browser s \<noteq> None"
  shows "session_ok s'"
  using assms
  by (auto simp: navigate_if_needed_def io_bind_def io_get_run io_update_run io_return_run
        io_call_run io_attempt_run session_ok_def split: option.splits if_splits)

lemma io_bind_cases:
  assumes "io_bind m k st = (r, st')"
  shows "(\<exists>f. m st = (Inl f, st') \<and> r = Inl f) \<or> (\<exists>x st1. m st = (Inr x, st1) \<and> k x st1 = (r, st'))"
  using assms by (auto simp: io_bind_def split: prod.splits sum.splits)

lemma acquire_local_ok:
  assumes run: "acquire_local w url (s, tr) = (r, s', tr')" and ok: "session_ok s"
  shows "session_ok s'"
proof -
  from io_bind_cases[OF run[unfolded acquire_local_def]] show ?thesis
  proof (elim disjE exE conjE)
    fix f assume "ensure_browser w (s, tr) = (Inl f, s', tr')"
    from ensure_browser_ok[OF this ok] show ?thesis by simp
  next
    fix x st1
    assume b: "ensure_browser w (s, tr) = (Inr x, st1)"
      and k1: "io_bind (ensure_context w) (\<lambda>_. io_bind (ensure_page w)
                 (\<lambda>p. io_bind (navigate_if_needed w url p) (\<lambda>_. io_return p))) st1 = (r, s', tr')"
    obtain s1 tr1 where st1: "st1 = (s1, tr1)" by (cases st1)
    from ensure_browser_ok[OF b[unfolded st1] ok] have ok1: "session_ok s1" "s_browser s1 \<noteq> None"
      by auto
    from io_bind_cases[OF k1] show ?thesis
    proof (elim disjE exE conjE)
      fix f assume "ensure_context w st1 = (Inl f, s', tr')"
      from ensure_context_ok[OF this[unfolded st1] ok1(1)] show ?thesis by simp
    next
      fix y st2
      assume c: "ensure_context w st1 = (Inr y, st2)"
        and k2: "io_bind (ensure_page w)
                   (\<lambda>p. io_bind (navigate_if_needed w url p) (\<lambda>_. io_return p)) st2 = (r, s', tr')"
      obtain s2 tr2 where st2: "st2 = (s2, tr2)" by (cases st2)
      from ensure_context_ok[OF c[unfolded st1 st2] ok1(1)] ok1(2)
      have ok2: "session_ok s2" "s_browser s2 \<noteq> None" by auto
      from io_bind_cases[OF k2] show ?thesis
      proof (elim disjE exE conjE)
        fix f assume "ensure_page w st2 = (Inl f, s', tr')"
        from ensure_page_ok[OF this[unfolded st2] ok2(1)] show ?thesis by simp
      next
        fix p st3
        assume pg: "ensure_page w st2 = (Inr p, st3)"
          and k3: "io_bind (navigate_if_needed w url p) (\<lambda>_. io_return p) st3 = (r, s', tr')"
        obtain s3 tr3 where st3: "st3 = (s3, tr3)" by (cases st3)
        from ensure_page_ok[OF pg[unfolded st2 st3] ok2(1)] ok2(2)
        have ok3: "session_ok s3" "s_browser s3 \<noteq> None" by auto
        from io_bind_cases[OF k3] show ?thesis
        proof (elim disjE exE conjE)
          fix f assume "navigate_if_needed w url p st3 = (Inl f, s', tr')"
          from navigate_if_needed_ok[OF this[unfolded st3] ok3] show ?thesis .
        next
          fix z st4
          assume n: "navigate_if_needed w url p st3 = (Inr z, st4)"
            and fin: "io_return p st4 = (r, s', tr')"
          obtain s4 tr4 where st4: "st4 = (s4, tr4)" by (cases st4)
          from navigate_if_needed_ok[OF n[unfolded st3 st4] ok3] have "session_ok s4" .
          with fin st4 show ?thesis by (simp add: io_return_run)
        qed
      qed
    qed
  qed
qed

lemma getPage_keeps_session_ok:
  assumes ok: "session_ok s" and run: "getPage w url (s, tr) = (r, s', tr')"
  shows "session_ok s'"
proof -
  from io_bind_cases[OF run[unfolded getPage_def]] show ?thesis
  proof (elim disjE exE conjE)
    fix f assume "attach_remote w url (s, tr) = (Inl f, s', tr')"
    from attach_remote_run[OF this ok] ok show ?thesis by (auto simp: session_ok_def)
  next
    fix x st1
    assume a: "attach_remote w url (s, tr) = (Inr x, st1)"
      and k: "(case x of None \<Rightarrow> acquire_local w url | Some p \<Rightarrow> io_return p) st1 = (r, s', tr')"
    obtain s1 tr1 where st1: "st1 = (s1, tr1)" by (cases st1)
    from attach_remote_run[OF a[unfolded st1] ok] ok have ok1: "session_ok s1"
      by (auto simp: session_ok_def)
    show ?thesis
    proof (cases x)
      case None
      with k st1 have "acquire_local w url (s1, tr1) = (r, s', tr')" by simp
      from acquire_local_ok[OF this ok1] show ?thesis .
    next
      case (Some p)
      with k st1 ok1 show ?thesis by (simp add: io_return_run)
    qed
  qed
qed

lemma closeSession_keeps_session_ok:
  assumes "session_ok s" and "closeSession w (s, tr) = (r, s', tr')"
  shows "session_ok s'"
  using assms
  by (auto simp: closeSession_def io_bind_def io_get_run io_update_run io_return_run io_call_run
        session_ok_def split: option.splits if_splits)



section \<open>Properties of the interaction executor\<close>

lemma includes_self [simp]: "str_includes t t"
  by (simp add: str_includes_def)

lemma includes_appendI1 [simp]: "str_includes b t \<Longrightarrow> str_includes (a @ b) t"
  by (simp add: str_includes_def sublist_append)

lemma includes_appendI2 [simp]: "str_includes a t \<Longrightarrow> str_includes (a @ b) t"
  by (simp add: str_includes_def sublist_append)

lemma includes_ConsI [simp]: "str_includes b t \<Longrightarrow> str_includes (c # b) t"
  by (simp add: str_includes_def sublist_Cons_right)

lemma includes_quoted [simp]: "str_includes (quoted t) t"
  by (simp add: quoted_def)

lemma click_after_page:
  assumes "getPage w url st = (Inr pg, s1, tr1)"
  shows "\<exists>r new. click w target url st = (Inr r, s1, tr1 @ new) \<and>
           (success r \<longleftrightarrow> (\<forall>c \<in> set new. outcome w c = None \<or> best_effort c)) \<and>
           (\<not> success r \<longrightarrow> (\<exists>f. outcome w (last new) = Some f \<and> explains (Click target) f r))"
  using assms
  by (auto simp: click_def io_bind_def io_catch_def io_get_run io_return_run io_call_run
        io_attempt_run io_call_string_def io_call_opt_string_def io_call_bool_def
        best_effort_def explains_def Let_def  split: option.splits)

lemma type_text_after_page:
  assumes "getPage w url st = (Inr pg, s1, tr1)"
  shows "\<exists>r new. type_text w target text url st = (Inr r, s1, tr1 @ new) \<and>
           (success r \<longleftrightarrow> (\<forall>c \<in> set new. outcome w c = None \<or> best_effort c)) \<and>
           (\<not> success r \<longrightarrow> (\<exists>f. outcome w (last new) = Some f \<and> explains (Type target text) f r))"
  using assms
  by (auto simp: type_text_def io_bind_def io_catch_def io_get_run io_return_run io_call_run
        io_attempt_run io_call_string_def io_call_opt_string_def io_call_bool_def
        best_effort_def explains_def Let_def  split: option.splits)

lemma select_after_page:
  assumes "getPage w url st = (Inr pg, s1, tr1)"
  shows "\<exists>r new. select w target val url st = (Inr r, s1, tr1 @ new) \<and>
           (success r \<longleftrightarrow> (\<forall>c \<in> set new. outcome w c = None \<or> best_effort c)) \<and>
           (\<not> success r \<longrightarrow> (\<exists>f. outcome w (last new) = Some f \<and> explains (Select target val) f r))"
  using assms
  by (auto simp: select_def io_bind_def io_catch_def io_get_run io_return_run io_call_run
        io_attempt_run io_call_string_def io_call_opt_string_def io_call_bool_def
        best_effort_def explains_def Let_def  split: option.splits)

lemma hover_after_page:
  assumes "getPage w url st = (Inr pg, s1, tr1)"
  shows "\<exists>r new. hover w target url st = (Inr r, s1, tr1 @ new) \<and>
           (success r \<longleftrightarrow> (\<forall>c \<in> set new. outcome w c = None \<or> best_effort c)) \<and>
           (\<not> success r \<longrightarrow> (\<exists>f. outcome w (last new) = Some f \<and> explains (Hover target) f r))"
  using assms
  by (auto simp: hover_def io_bind_def io_catch_def io_get_run io_return_run io_call_run
        io_attempt_run io_call_string_def io_call_opt_string_def io_call_bool_def
        best_effort_def explains_def Let_def  split: option.splits)

lemma press_after_page:
  assumes "getPage w url st = (Inr pg, s1, tr1)"
  shows "\<exists>r new. press w key url st = (Inr r, s1, tr1 @ new) \<and>
           (success r \<longleftrightarrow> (\<forall>c \<in> set new. outcome w c = None \<or> best_effort c)) \<and>
           (\<not> success r \<longrightarrow> (\<exists>f. outcome w (last new) = Some f \<and> explains (Press key) f r))"
  using assms
  by (auto simp: press_def io_bind_def io_catch_def io_get_run io_return_run io_call_run
        io_attempt_run io_call_string_def io_call_opt_string_def io_call_bool_def
        best_effort_def explains_def Let_def  split: option.splits)

lemma waitFor_after_page:
  assumes "getPage w url st = (Inr pg, s1, tr1)"
  shows "\<exists>r new. waitFor w target url timeoutMs st = (Inr r, s1, tr1 @ new) \<and>
           (success r \<longleftrightarrow> (\<forall>c \<in> set new. outcome w c = None \<or> best_effort c)) \<and>
           (\<not> success r \<longrightarrow> (\<exists>f. outcome w (last new) = Some f \<and> explains (WaitFor target timeoutMs) f r))"
  using assms
  by (auto simp: waitFor_def io_bind_def io_catch_def io_get_run io_return_run io_call_run
        io_attempt_run io_call_string_def io_call_opt_string_def io_call_bool_def
        best_effort_def explains_def Let_def  split: option.splits)

lemma scroll_step_cases:
  "(\<exists>c. scroll_step w direction = io_call w c \<and> \<not> best_effort c) \<or>
   scroll_step w direction = io_return ()"
proof -
  have k: "\<not> best_effort (KeyboardPress x)" for x by (simp add: best_effort_def)
  have t: "\<not> best_effort EvaluateScrollTop" "\<not> best_effort EvaluateScrollBottom"
    by (simp_all add: best_effort_def)
  consider (up) "direction = ''up''"
    | (down) "direction \<noteq> ''up''" "direction = ''down''"
    | (top) "direction \<noteq> ''up''" "direction \<noteq> ''down''" "direction = ''top''"
    | (bottom) "direction \<noteq> ''up''" "direction \<noteq> ''down''" "direction \<noteq> ''top''"
        "direction = ''bottom''"
    | (other) "direction \<noteq> ''up''" "direction \<noteq> ''down''" "direction \<noteq> ''top''"
        "direction \<noteq> ''bottom''"
    by blast
  then show ?thesis
  proof cases
    case up
    then have "scroll_step w direction = io_call w (KeyboardPress ''PageUp'')"
      by (simp add: scroll_step_def)
    with k show ?thesis by blast
  next
    case down
    then have "scroll_step w direction = io_call w (KeyboardPress ''PageDown'')"
      by (simp add: scroll_step_def)
    with k show ?thesis by blast
  next
    case top
    then have "scroll_step w direction = io_call w EvaluateScrollTop"
      by (simp add: scroll_step_def)
    with t show ?thesis by blast
  next
    case bottom
    then have "scroll_step w direction = io_call w EvaluateScrollBottom"
      by (simp add: scroll_step_def)
    with t show ?thesis by blast
  next
    case other
    then have "scroll_step w direction = io_return ()"
      by (simp add: scroll_step_def)
    then show ?thesis by blast
  qed
qed

lemma scroll_after_page:
  assumes "getPage w url st = (Inr pg, s1, tr1)"
  shows "\<exists>r new. scroll w direction url st = (Inr r, s1, tr1 @ new) \<and>
           (success r \<longleftrightarrow> (\<forall>c \<in> set new. outcome w c = None \<or> best_effort c)) \<and>
           (\<not> success r \<longrightarrow> (\<exists>f. outcome w (last new) = Some f \<and> explains (Scroll direction) f r))"
  using scroll_step_cases[of w direction]
proof
  assume "\<exists>c. scroll_step w direction = io_call w c \<and> \<not> best_effort c"
  then obtain c where "scroll_step w direction = io_call w c" "\<not> best_effort c" by blast
  with assms show ?thesis
    by (auto simp: scroll_def io_bind_def io_catch_def io_return_run io_call_run explains_def
          split: option.splits)
next
  assume "scroll_step w direction = io_return ()"
  with assms show ?thesis
    by (auto simp: scroll_def io_bind_def io_catch_def io_return_run)
qed

lemma getValue_after_page:
  assumes "getPage w url st = (Inr pg, s1, tr1)"
  shows "\<exists>r new. getValue w target url st = (Inr r, s1, tr1 @ new) \<and>
           (success r \<longleftrightarrow> (\<forall>c \<in> set new. outcome w c = None \<or> best_effort c)) \<and>
           (\<not> success r \<longrightarrow> (\<exists>f. outcome w (last new) = Some f \<and> explains (GetValue target) f r))"
  using assms
  by (auto simp: getValue_def io_bind_def io_catch_def io_get_run io_return_run io_call_run
        io_attempt_run io_call_string_def io_call_opt_string_def io_call_bool_def
        best_effort_def explains_def Let_def  split: option.splits)

lemma isVisible_after_page:
  assumes "getPage w url st = (Inr pg, s1, tr1)"
  shows "\<exists>r new. isVisible w target url st = (Inr r, s1, tr1 @ new) \<and>
           (success r \<longleftrightarrow> (\<forall>c \<in> set new. outcome w c = None \<or> best_effort c)) \<and>
           (\<not> success r \<longrightarrow> (\<exists>f. outcome w (last new) = Some f \<and> explains (IsVisible target) f r))"
  using assms
  by (auto simp: isVisible_def io_bind_def io_catch_def io_get_run io_return_run io_call_run
        io_attempt_run io_call_string_def io_call_opt_string_def io_call_bool_def
        best_effort_def explains_def Let_def  split: option.splits)

lemma getAttribute_after_page:
  assumes "getPage w url st = (Inr pg, s1, tr1)"
  shows "\<exists>r new. getAttribute w target attribute url st = (Inr r, s1, tr1 @ new) \<and>
           (success r \<longleftrightarrow> (\<forall>c \<in> set new. outcome w c = None \<or> best_effort c)) \<and>
           (\<not> success r \<longrightarrow> (\<exists>f. outcome w (last new) = Some f \<and> explains (GetAttribute target attribute) f r))"
  using assms
  by (auto simp: getAttribute_def io_bind_def io_catch_def io_get_run io_return_run io_call_run
        io_attempt_run io_call_string_def io_call_opt_string_def io_call_bool_def
        best_effort_def explains_def Let_def  split: option.splits)

lemma screenshot_after_page:
  assumes "getPage w url st = (Inr pg, s1, tr1)"
  shows "\<exists>r new. screenshot w outputPath url fast st = (Inr r, s1, tr1 @ new) \<and>
           (success r \<longleftrightarrow> (\<forall>c \<in> set new. outcome w c = None \<or> best_effort c)) \<and>
           (\<not> success r \<longrightarrow> (\<exists>f. outcome w (last new) = Some f \<and> explains (Screenshot outputPath fast) f r))"
  using assms
  by (auto simp: screenshot_def io_bind_def io_catch_def io_get_run io_return_run io_call_run
        io_attempt_run io_call_string_def io_call_opt_string_def io_call_bool_def
        best_effort_def explains_def Let_def  split: option.splits)

lemma run_request_after_page:
  assumes "getPage w url st = (Inr pg, s1, tr1)"
  shows "\<exists>r new. run_request w req url st = (Inr r, s1, tr1 @ new) \<and>
           (success r \<longleftrightarrow> (\<forall>c \<in> set new. outcome w c = None \<or> best_effort c)) \<and>
           (\<not> success r \<longrightarrow> (\<exists>f. outcome w (last new) = Some f \<and> explains req f r))"
proof (cases req)
  case (Click t)
  with click_after_page[OF assms] show ?thesis by simp
next
  case (Type t x)
  with type_text_after_page[OF assms] show ?thesis by simp
next
  case (Select t v)
  with select_after_page[OF assms] show ?thesis by simp
next
  case (Hover t)
  with hover_after_page[OF assms] show ?thesis by simp
next
  case (Press k)
  with press_after_page[OF assms] show ?thesis by simp
next
  case (WaitFor t n)
  with waitFor_after_page[OF assms] show ?thesis by simp
next
  case (Scroll d)
  with scroll_after_page[OF assms] show ?thesis by simp
next
  case (GetValue t)
  with getValue_after_page[OF assms] show ?thesis by simp
next
  case (IsVisible t)
  with isVisible_after_page[OF assms] show ?thesis by simp
next
  case (GetAttribute t a)
  with getAttribute_after_page[OF assms] show ?thesis by simp
next
  case (Screenshot p b)
  with screenshot_after_page[OF assms] show ?thesis by simp
qed

lemma run_request_page_fault:
  assumes "getPage w url st = (Inl f, st1)"
  shows "run_request w req url st = (Inl f, st1)"
  using assms
  by (cases req)
     (simp_all add: click_def type_text_def select_def hover_def press_def waitFor_def scroll_def
        scroll_step_def getValue_def isVisible_def getAttribute_def screenshot_def io_bind_def Let_def)





text \<open>
  The failure message of \<open>waitFor\<close> gives the target and the timeout, not the fault; the
  failure message of \<open>screenshot\<close> gives the fault, not the path.
\<close>

lemma show_nat_5000: "show_nat 5000 = ''5000''"
  by code_simp

lemma waitFor_message_has_no_fault:
  "\<exists>r st. waitFor (example_world selector_never_appears) ''#toast''
            (Some ''http://localhost:5173/'') None (initial_session, []) = (Inr r, st) \<and>
          \<not> success r \<and>
          message r = ''Element '' @ quoted ''#toast'' @ '' did not appear within 5000ms''"
  by (simp add: waitFor_def getPage_def attach_remote_def acquire_local_def ensure_browser_def
        ensure_context_def ensure_page_def navigate_if_needed_def io_bind_def io_catch_def
        io_get_run io_update_run io_return_run io_call_run io_attempt_run truthy_def
        example_world_def selector_never_appears_def initial_session_def
        findSelector_def startsWith_def show_nat_5000 Let_def)



text \<open>The actions keep the session invariant.\<close>

lemma run_request_keeps_session_ok:
  assumes "session_ok s" and "run_request w req url (s, tr) = (r, s', tr')"
  shows "session_ok s'"
proof -
  obtain r0 s0 tr0 where g: "getPage w url (s, tr) = (r0, s0, tr0)" by (metis prod_cases3)
  from getPage_keeps_session_ok[OF assms(1) g] have ok: "session_ok s0" .
  show ?thesis
  proof (cases r0)
    case (Inl f)
    with g run_request_page_fault[of w url "(s, tr)" f "(s0, tr0)" req] assms(2) ok
    show ?thesis by simp
  next
    case (Inr pg)
    with g run_request_after_page[of w url "(s, tr)" pg s0 tr0 req] assms(2) ok
    show ?thesis by auto
  qed
qed

section \<open>Properties of the tool-invocation boundary\<close>














lemma dispatch_scroll:
  assumes "arg_action args = Some ''scroll''"
  shows "dispatch w args url urlInfo =
           io_bind (scroll w (or_else (arg_direction args) ''down'') (Some url))
             (\<lambda>result. io_return (render_result result))"
  using assms by (simp add: dispatch_def Let_def)

lemma scroll_down_after_page:
  assumes "getPage w url st = (Inr pg, s2, tr2)"
  shows "scroll w ''down'' url st =
           (Inr (case outcome w (KeyboardPress ''PageDown'') of
                   None \<Rightarrow> \<lparr>success = True, ir_action = ''scroll'', ir_target = ''down'',
                              message = ''Scrolled down'', durationMs = elapsed w,
                              payload = NoPayload\<rparr>
                 | Some f \<Rightarrow> \<lparr>success = False, ir_action = ''scroll'', ir_target = ''down'',
                                message = ''Failed to scroll down: '' @ fault_message f,
                                durationMs = elapsed w, payload = NoPayload\<rparr>),
            s2, tr2 @ [KeyboardPress ''PageDown''])"
  using assms
  by (simp add: scroll_def scroll_step_def io_bind_def io_catch_def io_call_run io_return_run
        split: option.splits)

text \<open>
  C10. A scroll request without a direction (absent or empty) is handled exactly as the
  same request with the direction "down": it is not answered with a parameter error. When
  the URL is resolved and the page acquired, the key PageDown is pressed as the next call,
  and the response reports the scroll (or the fault of the key press).
\<close>

theorem C10_scroll_defaults_to_down:
  assumes "arg_action args = Some ''scroll''" and "\<not> truthy (arg_direction args)"
  shows "call_tool w ''websight'' args st =
           call_tool w ''websight'' (args\<lparr>arg_direction := Some ''down''\<rparr>) st \<and>
         (\<forall>u detected src s1 tr1 pg s2 tr2.
            resolveUrl w (arg_url args) st = (Inr (u, detected, src), s1, tr1) \<longrightarrow>
            getPage w (Some u) (s1, tr1) = (Inr pg, s2, tr2) \<longrightarrow>
            call_tool w ''websight'' args st =
              (Inr (case outcome w (KeyboardPress ''PageDown'') of
                      None \<Rightarrow> check_mark @ '' Scrolled down ('' @ show_int (elapsed w) @ ''ms)''
                    | Some f \<Rightarrow> cross_mark @ '' Failed to scroll down: '' @ fault_message f),
               s2, tr2 @ [KeyboardPress ''PageDown'']))"
proof -
  have dir: "or_else (arg_direction args) ''down'' = ''down''"
    using assms(2) by (auto simp: or_else_def truthy_def split: option.splits)
  have d1: "dispatch w args url urlInfo =
              io_bind (scroll w ''down'' (Some url)) (\<lambda>result. io_return (render_result result))"
    for url urlInfo
    using dispatch_scroll[OF assms(1)] dir by simp
  have d2: "dispatch w (args\<lparr>arg_direction := Some ''down''\<rparr>) url urlInfo =
              io_bind (scroll w ''down'' (Some url)) (\<lambda>result. io_return (render_result result))"
    for url urlInfo
    using dispatch_scroll[of "args\<lparr>arg_direction := Some ''down''\<rparr>" w url urlInfo] assms(1)
    by (simp add: or_else_def)
  have same: "call_tool w ''websight'' args st =
                call_tool w ''websight'' (args\<lparr>arg_direction := Some ''down''\<rparr>) st"
    by (simp add: call_tool_def d1 d2)
  have run: "call_tool w ''websight'' args st =
              (Inr (case outcome w (KeyboardPress ''PageDown'') of
                      None \<Rightarrow> check_mark @ '' Scrolled down ('' @ show_int (elapsed w) @ ''ms)''
                    | Some f \<Rightarrow> cross_mark @ '' Failed to scroll down: '' @ fault_message f),
               s2, tr2 @ [KeyboardPress ''PageDown''])"
    if r: "resolveUrl w (arg_url args) st = (Inr (u, detected, src), s1, tr1)"
      and g: "getPage w (Some u) (s1, tr1) = (Inr pg, s2, tr2)"
    for u detected src s1 tr1 pg s2 tr2
    using r scroll_down_after_page[OF g]
    by (simp add: call_tool_def d1 io_catch_def io_bind_def io_return_run render_result_def
          Let_def split: option.splits)
  from same run show ?thesis by blast
qed

theorem C10_scroll_defaults_to_down_witness:
  "call_tool (example_world all_ok) ''websight''
     ((example_args ''scroll'')\<lparr>arg_url := Some ''http://localhost:5173/''\<rparr>)
     (initial_session, []) =
     (Inr (check_mark @ '' Scrolled down (30ms)''),
      \<lparr>s_browser = Some LaunchedBrowser, s_context = Some LocalContext, s_page = Some LocalPage,
        currentUrl = Some ''http://localhost:5173/'', lastSnapshot = None, isRemote = False\<rparr>,
      [Launch True, NewContext, NewPage, PageRoute,
       PageGoto LocalPage ''http://localhost:5173/'' 30000,
       WaitForLoadState LocalPage ''networkidle'' 3000, KeyboardPress ''PageDown''])"
proof -
  let ?w = "example_world all_ok" and ?u = "''http://localhost:5173/''"
  let ?a = "(example_args ''scroll'')\<lparr>arg_url := Some ?u\<rparr>"
  let ?s2 = "\<lparr>s_browser = Some LaunchedBrowser, s_context = Some LocalContext,
              s_page = Some LocalPage, currentUrl = Some ?u, lastSnapshot = None,
              isRemote = False\<rparr>"
  let ?t2 = "[Launch True, NewContext, NewPage, PageRoute, PageGoto LocalPage ?u 30000,
              WaitForLoadState LocalPage ''networkidle'' 3000]"
  have a1: "arg_action ?a = Some ''scroll''" by (simp add: example_args_def)
  have a2: "\<not> truthy (arg_direction ?a)" by (simp add: example_args_def truthy_def)
  have r: "resolveUrl ?w (arg_url ?a) (initial_session, []) = (Inr (?u, False, []), initial_session, [])"
    by (simp add: resolveUrl_def example_args_def truthy_def io_return_run)
  have g: "getPage ?w (Some ?u) (initial_session, []) = (Inr LocalPage, ?s2, ?t2)"
    by (simp add: getPage_def attach_remote_def acquire_local_def ensure_browser_def
          ensure_context_def ensure_page_def navigate_if_needed_def io_bind_def io_get_run
          io_update_run io_return_run io_call_run io_attempt_run truthy_def example_world_def
          all_ok_def initial_session_def)
  have o: "outcome ?w (KeyboardPress ''PageDown'') = None"
    by (simp add: example_world_def all_ok_def)
  have e: "show_int (elapsed ?w) = ''30''"
    by (simp add: elapsed_def example_world_def show_int_def show_nat.simps)
  from C10_scroll_defaults_to_down[OF a1 a2, of ?w "(initial_session, [])"] r g
  have "call_tool ?w ''websight'' ?a (initial_session, []) =
          (Inr (case outcome ?w (KeyboardPress ''PageDown'') of
                  None \<Rightarrow> check_mark @ '' Scrolled down ('' @ show_int (elapsed ?w) @ ''ms)''
                | Some f \<Rightarrow> cross_mark @ '' Failed to scroll down: '' @ fault_message f),
           ?s2, ?t2 @ [KeyboardPress ''PageDown''])"
    by blast
  then show ?thesis by (simp add: o e)
qed


end
